theory Spec2Isabelle
  imports Main
begin

section \<open>Strings\<close>

text \<open>
  A JavaScript string is a sequence of UTF-16 code units. The model covers the strings
  whose code units lie in the range U+0000 .. U+00FF and writes one code unit as one
  \<^typ>\<open>char\<close>; \<open>of_char c\<close> is its code.
\<close>

definition code :: "char \<Rightarrow> nat" where
  "code c = of_char c"

definition HYPHEN :: char where
  "HYPHEN = CHR ''-''"

definition is_lower_az :: "char \<Rightarrow> bool" where
  \<comment> \<open>the class \<open>a-z\<close>\<close>
  "is_lower_az c = (97 \<le> code c \<and> code c \<le> 122)"

definition is_digit :: "char \<Rightarrow> bool" where
  \<comment> \<open>the class \<open>0-9\<close>\<close>
  "is_digit c = (48 \<le> code c \<and> code c \<le> 57)"

definition is_space :: "char \<Rightarrow> bool" where
  \<comment> \<open>the class \<open>\s\<close>, which is also what \<open>trim\<close> removes: TAB, LF, VT, FF, CR, SP, NBSP\<close>
  "is_space c = (code c \<in> {9, 10, 11, 12, 13, 32, 160})"

definition is_line_terminator :: "char \<Rightarrow> bool" where
  \<comment> \<open>what \<open>.\<close> refuses and what \<open>^\<close> and \<open>$\<close> look for under the \<open>m\<close> flag: LF, CR\<close>
  "is_line_terminator c = (code c \<in> {10, 13})"

definition toLowerCase_char :: "char \<Rightarrow> char" where
  "toLowerCase_char c =
     (if (65 \<le> code c \<and> code c \<le> 90) \<or> (192 \<le> code c \<and> code c \<le> 222 \<and> code c \<noteq> 215)
      then char_of (code c + 32) else c)"

definition toLowerCase :: "string \<Rightarrow> string" where
  "toLowerCase s = map toLowerCase_char s"

definition trim :: "string \<Rightarrow> string" where
  "trim s = rev (dropWhile is_space (rev (dropWhile is_space s)))"

text \<open>\<open>s.replace(/[^...]/g, '')\<close> with a negated class: every character outside the class goes.\<close>

definition remove_outside :: "(char \<Rightarrow> bool) \<Rightarrow> string \<Rightarrow> string" where
  "remove_outside keep s = filter keep s"

text \<open>\<open>s.replace(/X+/g, '-')\<close>: every maximal run of characters of the class \<open>X\<close> becomes one hyphen.\<close>

function replace_runs :: "(char \<Rightarrow> bool) \<Rightarrow> string \<Rightarrow> string" where
  "replace_runs p [] = []"
| "replace_runs p (c # cs) =
     (if p c then HYPHEN # replace_runs p (dropWhile p cs) else c # replace_runs p cs)"
  by pat_completeness auto
termination
  by (relation "measure (\<lambda>(p, s). length s)") (auto simp: less_Suc_eq_le length_dropWhile_le)

text \<open>
  \<open>s.replace(/^-|-$/g, '')\<close>, without the \<open>m\<close> flag: the scan removes a hyphen at index 0,
  goes on behind it, and removes a hyphen that is the last character of the string.
\<close>

definition remove_edge_hyphens :: "string \<Rightarrow> string" where
  "remove_edge_hyphens s =
     (let s1 = (case s of [] \<Rightarrow> [] | c # cs \<Rightarrow> if c = HYPHEN then cs else s)
      in if s1 \<noteq> [] \<and> last s1 = HYPHEN then butlast s1 else s1)"

section \<open>Heading identifiers\<close>

definition slug_char :: "char \<Rightarrow> bool" where
  \<comment> \<open>the class \<open>[a-z0-9\s-]\<close>\<close>
  "slug_char c = (is_lower_az c \<or> is_digit c \<or> is_space c \<or> c = HYPHEN)"

definition generateHeadingId :: "string \<Rightarrow> string" where
  "generateHeadingId text =
     remove_edge_hyphens
       (replace_runs (\<lambda>c. c = HYPHEN)
         (replace_runs is_space
           (remove_outside slug_char
             (toLowerCase text))))"


text \<open>
  The identifier function as the specification words it: lowercase, strip the characters
  outside \<open>[a-z0-9\s-]\<close>, collapse whitespace runs to single hyphens, trim leading
  and trailing hyphens.
\<close>

definition trim_hyphens :: "string \<Rightarrow> string" where
  "trim_hyphens s =
     rev (dropWhile (\<lambda>c. c = HYPHEN) (rev (dropWhile (\<lambda>c. c = HYPHEN) s)))"

definition canonical_slug :: "string \<Rightarrow> string" where
  "canonical_slug text =
     trim_hyphens (replace_runs is_space (remove_outside slug_char (toLowerCase text)))"

text \<open>The same with one more step: runs of hyphens collapse to a single hyphen before the trim.\<close>

definition canonical_slug_squeezed :: "string \<Rightarrow> string" where
  "canonical_slug_squeezed text =
     trim_hyphens
       (replace_runs (\<lambda>c. c = HYPHEN)
         (replace_runs is_space (remove_outside slug_char (toLowerCase text))))"

section \<open>Lessons and navigation\<close>

datatype thrown =
    ErrorObj (name: string) (message: string)  \<comment> \<open>an instance of \<open>Error\<close>\<close>
  | NonError string  \<comment> \<open>any other thrown value, such as an abort reason that is a string\<close>

record Course =
  course_title :: string
  tagline :: string
  course_description :: string
  coverImage :: string

record Lesson =
  order :: int
  slug :: string
  title :: string
  description :: string
  mdPath :: string
  ogImage :: "string option"
  estReadMinutes :: "int option"
  tags :: "string list option"

record ContentManifest =
  course :: Course
  lessons :: "Lesson list"

record LessonLink =
  link_slug :: string
  link_title :: string

record LessonNavigation =
  previous :: "LessonLink option"
  "next" :: "LessonLink option"

text \<open>\<open>Array.prototype.findIndex\<close>: the first index whose element passes, or \<open>-1\<close>.\<close>

fun findIndex_from :: "int \<Rightarrow> ('a \<Rightarrow> bool) \<Rightarrow> 'a list \<Rightarrow> int" where
  "findIndex_from i p [] = -1"
| "findIndex_from i p (x # xs) = (if p x then i else findIndex_from (i + 1) p xs)"

definition findIndex :: "('a \<Rightarrow> bool) \<Rightarrow> 'a list \<Rightarrow> int" where
  "findIndex p xs = findIndex_from 0 p xs"

text \<open>An array read \<open>xs[i]\<close>: \<open>None\<close> is \<open>undefined\<close>, what an index out of range reads.\<close>

definition at :: "'a list \<Rightarrow> int \<Rightarrow> 'a option" where
  "at xs i = (if 0 \<le> i \<and> i < int (length xs) then Some (xs ! nat i) else None)"

text \<open>Reading \<open>.slug\<close> and \<open>.title\<close> of an array element; of \<open>undefined\<close> it throws a TypeError.\<close>

definition link_of :: "Lesson option \<Rightarrow> thrown + LessonLink" where
  "link_of e =
     (case e of
        None \<Rightarrow> Inl (ErrorObj ''TypeError'' ''Cannot read properties of undefined'')
      | Some l \<Rightarrow> Inr \<lparr>link_slug = slug l, link_title = title l\<rparr>)"

definition getLessonNavigation :: "ContentManifest \<Rightarrow> string \<Rightarrow> thrown + LessonNavigation" where
  "getLessonNavigation manifest currentSlug =
     (let currentIndex = findIndex (\<lambda>lesson. slug lesson = currentSlug) (lessons manifest)
      in if currentIndex = -1 then Inr \<lparr>previous = None, next = None\<rparr>
         else
           case (if currentIndex > 0
                 then map_sum id Some (link_of (at (lessons manifest) (currentIndex - 1)))
                 else Inr None) of
             Inl e \<Rightarrow> Inl e
           | Inr prev \<Rightarrow>
               (case (if currentIndex < int (length (lessons manifest)) - 1
                      then map_sum id Some (link_of (at (lessons manifest) (currentIndex + 1)))
                      else Inr None) of
                  Inl e \<Rightarrow> Inl e
                | Inr nxt \<Rightarrow> Inr \<lparr>previous = prev, next = nxt\<rparr>))"

text \<open>A string in which no two hyphens are adjacent.\<close>

definition no_double_hyphen :: "string \<Rightarrow> bool" where
  "no_double_hyphen s = (\<forall>u v. s \<noteq> u @ HYPHEN # HYPHEN # v)"

text \<open>The slug and title of a lesson, as the navigation record holds them.\<close>

definition link :: "Lesson \<Rightarrow> LessonLink" where
  "link l = \<lparr>link_slug = slug l, link_title = title l\<rparr>"

text \<open>A manifest of three lessons \<open>a\<close>, \<open>b\<close>, \<open>c\<close>.\<close>

definition example_lesson :: "int \<Rightarrow> string \<Rightarrow> Lesson" where
  "example_lesson n s =
     \<lparr>order = n, slug = s, title = ''T'' @ s, description = [],
      mdPath = ''/content/lessons/'' @ s @ ''.md'',
      ogImage = None, estReadMinutes = None, tags = None\<rparr>"

definition example_manifest :: ContentManifest where
  "example_manifest =
     \<lparr>course = \<lparr>course_title = ''PG'', tagline = [], course_description = [], coverImage = []\<rparr>,
      lessons = [example_lesson 1 ''a'', example_lesson 2 ''b'', example_lesson 3 ''c'']\<rparr>"

section \<open>Heading extraction\<close>

text \<open>
  \<open>extractHeadings\<close> runs the regular expression \<open>/^(#{2,4})\s+(.+)$/gm\<close> over the source
  with \<open>exec\<close>. The functions below are the matcher for this expression: each takes the
  input from the current position on and returns what it captured and the input behind
  the match; alternatives are tried in the order in which a backtracking matcher tries
  them, the greedy choice first.
\<close>

fun first_some :: "'a option list \<Rightarrow> 'a option" where
  "first_some [] = None"
| "first_some (None # xs) = first_some xs"
| "first_some (Some x # xs) = Some x"

definition match_text :: "string \<Rightarrow> (string \<times> string) option" where
  \<comment> \<open>\<open>(.+)$\<close>: the longest run of characters that are no line terminators, at least one;
      behind it comes a line terminator or the end of the input, so \<open>$\<close> holds\<close>
  "match_text s =
     (let t = takeWhile (\<lambda>c. \<not> is_line_terminator c) s
      in if t = [] then None else Some (t, drop (length t) s))"

definition match_space_text :: "string \<Rightarrow> (string \<times> string) option" where
  \<comment> \<open>\<open>\s+(.+)$\<close>: \<open>\s+\<close> takes the whole run of whitespace first and gives back one character
      at a time, down to one\<close>
  "match_space_text s =
     (let w = length (takeWhile is_space s)
      in first_some (map (\<lambda>k. match_text (drop k s)) (rev [1 ..< Suc w])))"

definition match_heading :: "string \<Rightarrow> (nat \<times> string \<times> string) option" where
  \<comment> \<open>\<open>(#{2,4})\s+(.+)$\<close>: four, then three, then two hash signs\<close>
  "match_heading s =
     (let h = length (takeWhile (\<lambda>c. c = CHR ''#'') s)
      in first_some
           (map (\<lambda>n. if n \<le> h
                      then map_option (\<lambda>(t, r). (n, t, r)) (match_space_text (drop n s))
                      else None)
                [4, 3, 2]))"

lemma match_text_shorter:
  "match_text s = Some (t, r) \<Longrightarrow> length r < length s"
  by (cases s) (auto simp: match_text_def Let_def split: if_splits)

lemma first_some_mapD:
  "first_some (map f ks) = Some x \<Longrightarrow> \<exists>k \<in> set ks. f k = Some x"
proof (induction ks)
  case Nil
  then show ?case by simp
next
  case (Cons k ks)
  then show ?case by (cases "f k") auto
qed

lemma match_space_text_shorter:
  "match_space_text s = Some (t, r) \<Longrightarrow> length r < length s"
  unfolding match_space_text_def Let_def
  by (drule first_some_mapD) (auto dest!: match_text_shorter)

lemma match_heading_shorter:
  "match_heading s = Some (n, t, r) \<Longrightarrow> length r < length s"
  unfolding match_heading_def Let_def
  by (drule first_some_mapD) (auto split: if_splits dest!: match_space_text_shorter)

text \<open>
  The \<open>while ((match = headingRegex.exec(markdown)) !== null)\<close> loop. \<open>bol\<close> tells whether
  \<open>^\<close> holds at the current position: at index 0 and behind a line terminator. A match
  ends behind a character that is no line terminator, and the next search starts there.
\<close>

function scan_headings :: "bool \<Rightarrow> string \<Rightarrow> (nat \<times> string) list" where
  "scan_headings bol s =
     (case (if bol then match_heading s else None) of
        Some (n, t, r) \<Rightarrow> (n, t) # scan_headings False r
      | None \<Rightarrow> (case s of [] \<Rightarrow> [] | c # cs \<Rightarrow> scan_headings (is_line_terminator c) cs))"
  by pat_completeness auto
termination
  by (relation "measure (\<lambda>(bol, s). length s)")
     (auto split: if_splits dest: match_heading_shorter)

declare scan_headings.simps [simp del]

section \<open>The heading tree\<close>

text \<open>The object that \<open>extractHeadings\<close> pushes for a match: \<open>{ id, depth, text }\<close>.\<close>

record heading =
  heading_id :: string
  heading_depth :: nat
  heading_text :: string

text \<open>A heading with the headings below it, as the caller reads the result.\<close>

datatype TOCHeading =
  TOCHeading (toc_id: string) (toc_depth: nat) (toc_text: string)
             (toc_children: "TOCHeading list option")

text \<open>
  \<open>buildHeadingTree\<close> works on shared objects: a heading object is in \<open>root\<close> or in the
  \<open>children\<close> array of its parent, and on \<open>stack\<close> at the same time, and
  \<open>parent.children.push\<close> changes it in all these places. The model keeps the objects in
  a store. The address of a heading is its index in the input array; \<open>children_of\<close> holds
  the \<open>children\<close> property of the object at an address (\<open>None\<close> where the object has
  none); \<open>root\<close> and \<open>stack\<close> are arrays of addresses, the top of the stack at the end.
\<close>

record build_state =
  children_of :: "nat \<rightharpoonup> nat list"
  root :: "nat list"
  stack :: "nat list"

definition depth_at :: "heading list \<Rightarrow> nat \<Rightarrow> nat" where
  "depth_at hs a = heading_depth (hs ! a)"

text \<open>\<open>while (stack.length > 0 && stack[stack.length - 1].depth >= heading.depth) stack.pop()\<close>\<close>

function pop_loop :: "heading list \<Rightarrow> nat \<Rightarrow> nat list \<Rightarrow> nat list" where
  "pop_loop hs a stk =
     (if length stk > 0 \<and> depth_at hs (last stk) \<ge> depth_at hs a
      then pop_loop hs a (butlast stk) else stk)"
  by pat_completeness auto
termination
  by (relation "measure (\<lambda>(hs, a, stk). length stk)") auto

declare pop_loop.simps [simp del]

definition visit :: "heading list \<Rightarrow> build_state \<Rightarrow> nat \<Rightarrow> build_state" where
  \<comment> \<open>the body of \<open>for (const heading of headings)\<close>, for the heading at address \<open>a\<close>\<close>
  "visit hs st a =
     (let stk = pop_loop hs a (stack st)
      in if length stk = 0
         then st\<lparr>root := root st @ [a], stack := stk @ [a]\<rparr>
         else
           let parent = last stk;
               cs = (case children_of st parent of None \<Rightarrow> [] | Some cs \<Rightarrow> cs)
           in st\<lparr>children_of := (children_of st)(parent \<mapsto> cs @ [a]), stack := stk @ [a]\<rparr>)"

fun visit_all :: "heading list \<Rightarrow> build_state \<Rightarrow> nat list \<Rightarrow> build_state" where
  "visit_all hs st [] = st"
| "visit_all hs st (a # as) = visit_all hs (visit hs st a) as"

definition build :: "heading list \<Rightarrow> build_state" where
  \<comment> \<open>the state at \<open>return root\<close>\<close>
  "build hs = visit_all hs \<lparr>children_of = Map.empty, root = [], stack = []\<rparr> [0 ..< length hs]"

text \<open>
  The value at an address, read through the store. A \<open>children\<close> array holds addresses
  of headings that come later in the input than its owner (shown below as
  \<open>build_children_later\<close>), which is what makes the reading end.
\<close>

function snapshot :: "heading list \<Rightarrow> (nat \<rightharpoonup> nat list) \<Rightarrow> nat \<Rightarrow> TOCHeading" where
  "snapshot hs ch a =
     TOCHeading (heading_id (hs ! a)) (heading_depth (hs ! a)) (heading_text (hs ! a))
       (case ch a of
          None \<Rightarrow> None
        | Some cs \<Rightarrow> Some (map (snapshot hs ch) (filter (\<lambda>c. a < c \<and> c < length hs) cs)))"
  by pat_completeness auto
termination
  by (relation "measure (\<lambda>(hs, ch, a). length hs - a)") auto

declare snapshot.simps [simp del]

definition buildHeadingTree :: "heading list \<Rightarrow> TOCHeading list" where
  "buildHeadingTree hs = (let st = build hs in map (snapshot hs (children_of st)) (root st))"

definition extractHeadings :: "string \<Rightarrow> TOCHeading list" where
  "extractHeadings markdown =
     buildHeadingTree
       (map (\<lambda>(level, t). let text = trim t
                           in \<lparr>heading_id = generateHeadingId text, heading_depth = level, heading_text = text\<rparr>)
            (scan_headings True markdown))"

definition example_headings :: "heading list" where
  \<comment> \<open>depths \<open>[2,3,3,2,4]\<close>, texts \<open>[A,B,C,D,E]\<close>\<close>
  "example_headings =
     [\<lparr>heading_id = ''a'', heading_depth = 2, heading_text = ''A''\<rparr>,
      \<lparr>heading_id = ''b'', heading_depth = 3, heading_text = ''B''\<rparr>,
      \<lparr>heading_id = ''c'', heading_depth = 3, heading_text = ''C''\<rparr>,
      \<lparr>heading_id = ''d'', heading_depth = 2, heading_text = ''D''\<rparr>,
      \<lparr>heading_id = ''e'', heading_depth = 4, heading_text = ''E''\<rparr>]"


subsection \<open>The stack algorithm, in the words of the specification\<close>

text \<open>
  For each incoming heading: pop the stack while its top has a depth greater than or
  equal to the incoming depth; if the stack is now empty the heading becomes a new root,
  otherwise the last child of the new stack top; then push the incoming heading. Here
  the stack is a list with its top at the head.
\<close>

definition spec_visit :: "heading list \<Rightarrow> nat \<Rightarrow> build_state \<Rightarrow> build_state" where
  "spec_visit hs a st =
     (case dropWhile (\<lambda>p. depth_at hs a \<le> depth_at hs p) (stack st) of
        [] \<Rightarrow> st\<lparr>root := root st @ [a], stack := [a]\<rparr>
      | parent # below \<Rightarrow>
          st\<lparr>children_of := (children_of st)(parent \<mapsto> (case children_of st parent of None \<Rightarrow> [] | Some cs \<Rightarrow> cs) @ [a]),
             stack := a # parent # below\<rparr>)"

definition spec_buildTree :: "heading list \<Rightarrow> build_state" where
  "spec_buildTree hs =
     fold (spec_visit hs) [0 ..< length hs] \<lparr>children_of = Map.empty, root = [], stack = []\<rparr>"

subsection \<open>The nearest shallower heading\<close>

text \<open>The greatest index below \<open>n\<close> that passes \<open>P\<close>.\<close>

fun nearest :: "(nat \<Rightarrow> bool) \<Rightarrow> nat \<Rightarrow> nat option" where
  "nearest P 0 = None"
| "nearest P (Suc k) = (if P k then Some k else nearest P k)"

definition parent_of :: "heading list \<Rightarrow> nat \<Rightarrow> nat option" where
  \<comment> \<open>the last heading before \<open>a\<close> that is less deep than \<open>a\<close>\<close>
  "parent_of hs a = nearest (\<lambda>p. depth_at hs p < depth_at hs a) a"

lemma nearest_less: "nearest P n = Some p \<Longrightarrow> p < n"
  by (induction n) (auto split: if_splits)

text \<open>A heading, its parent, the parent of its parent, and so on.\<close>

function chain :: "heading list \<Rightarrow> nat \<Rightarrow> nat list" where
  "chain hs a = a # (case parent_of hs a of None \<Rightarrow> [] | Some p \<Rightarrow> chain hs p)"
  by pat_completeness auto
termination
  by (relation "measure (\<lambda>(hs, a). a)") (auto simp: parent_of_def dest: nearest_less)

declare chain.simps [simp del]

definition open_chain :: "heading list \<Rightarrow> nat \<Rightarrow> nat list" where
  \<comment> \<open>the ancestors that are open when the first \<open>n\<close> headings have been read\<close>
  "open_chain hs n = (case n of 0 \<Rightarrow> [] | Suc a \<Rightarrow> chain hs a)"

definition children_upto :: "heading list \<Rightarrow> nat \<Rightarrow> nat \<Rightarrow> nat list option" where
  \<comment> \<open>among the first \<open>n\<close> headings, those whose parent is \<open>p\<close>, in document order;
      no \<open>children\<close> property when there are none\<close>
  "children_upto hs n p =
     (let cs = filter (\<lambda>a. parent_of hs a = Some p) [0 ..< n] in if cs = [] then None else Some cs)"

text \<open>The same state with the stack written the other way round.\<close>

definition flip_stack :: "build_state \<Rightarrow> build_state" where
  "flip_stack st = st\<lparr>stack := rev (stack st)\<rparr>"

text \<open>
  What holds when the first \<open>n\<close> headings have been read: the roots are the headings
  without a parent, the children of a heading those whose parent it is, and the stack
  is the last heading read with its ancestors.
\<close>

definition outline_inv :: "heading list \<Rightarrow> nat \<Rightarrow> build_state \<Rightarrow> bool" where
  "outline_inv hs n st \<longleftrightarrow>
     root st = filter (\<lambda>a. parent_of hs a = None) [0 ..< n]
     \<and> children_of st = children_upto hs n
     \<and> stack st = open_chain hs n"


section \<open>The environment of the loaders\<close>

text \<open>A parsed JSON value; an object is the list of its members.\<close>

datatype json =
    JNull
  | JBool bool
  | JNum int
  | JStr string
  | JArr "json list"
  | JObj "(string \<times> json) list"

text \<open>
  A response of \<open>fetch\<close>. \<open>body\<close> is what reading the body settles to: the value of
  \<open>response.text()\<close> or \<open>response.json()\<close>, or what that promise rejects with (a
  SyntaxError for a payload that is not JSON, an AbortError when the signal fires while
  the body is read).
\<close>

record 'a Response =
  ok :: bool
  status :: nat
  statusText :: string
  body :: "thrown + 'a"

text \<open>
  What \<open>await fetch(url, { signal })\<close> settles to. The signal of the caller acts through
  this outcome only: when it fires, the promise rejects with the abort reason, which is a
  DOMException named \<open>AbortError\<close> unless \<open>abort\<close> was given a reason of its own.
\<close>

datatype 'a fetch_outcome = Rejected thrown | Resolved "'a Response"

definition AbortError :: thrown where
  "AbortError = ErrorObj ''AbortError'' ''signal is aborted without reason''"

text \<open>The template literal \<open>`${n}`\<close> of a natural number.\<close>

function show_nat :: "nat \<Rightarrow> string" where
  "show_nat n = (if n < 10 then [char_of (48 + n)] else show_nat (n div 10) @ [char_of (48 + n mod 10)])"
  by pat_completeness auto
termination
  by (relation "measure id") auto

declare show_nat.simps [simp del]

text \<open>
  \<open>sessionStorage\<close>, as far as this module uses it. The items are held in parsed form:
  under \<open>MANIFEST_CACHE_KEY\<close> an object \<open>{ data, timestamp }\<close>, under a lesson key a
  \<open>LessonCacheEntry\<close>. A browser that denies the storage makes every access throw;
  a full storage makes \<open>setItem\<close> throw: \<open>get_fault\<close> and \<open>set_fault\<close> hold what is thrown.
\<close>

record LessonContent =
  markdown :: string
  headings :: "TOCHeading list"

record LessonCacheEntry =
  content :: string
  timestamp :: int
  entry_headings :: "TOCHeading list"

record ManifestCacheEntry =
  data :: json
  manifest_timestamp :: int

record sessionStorage =
  get_fault :: "thrown option"
  set_fault :: "thrown option"
  manifest_item :: "ManifestCacheEntry option"
  lesson_items :: "string \<rightharpoonup> LessonCacheEntry"

definition getItem_manifest :: "sessionStorage \<Rightarrow> thrown + ManifestCacheEntry option" where
  "getItem_manifest st = (case get_fault st of Some e \<Rightarrow> Inl e | None \<Rightarrow> Inr (manifest_item st))"

definition setItem_manifest :: "sessionStorage \<Rightarrow> ManifestCacheEntry \<Rightarrow> thrown + sessionStorage" where
  "setItem_manifest st e =
     (case set_fault st of Some x \<Rightarrow> Inl x | None \<Rightarrow> Inr (st\<lparr>manifest_item := Some e\<rparr>))"

definition getItem_lesson :: "sessionStorage \<Rightarrow> string \<Rightarrow> thrown + LessonCacheEntry option" where
  "getItem_lesson st key = (case get_fault st of Some e \<Rightarrow> Inl e | None \<Rightarrow> Inr (lesson_items st key))"

definition setItem_lesson :: "sessionStorage \<Rightarrow> string \<Rightarrow> LessonCacheEntry \<Rightarrow> thrown + sessionStorage" where
  "setItem_lesson st key e =
     (case set_fault st of
        Some x \<Rightarrow> Inl x
      | None \<Rightarrow> Inr (st\<lparr>lesson_items := (lesson_items st)(key \<mapsto> e)\<rparr>))"

section \<open>The loaders\<close>

definition MANIFEST_CACHE_KEY :: string where
  "MANIFEST_CACHE_KEY = ''content-manifest''"

definition LESSON_CACHE_PREFIX :: string where
  "LESSON_CACHE_PREFIX = ''lesson-content-''"

definition CACHE_EXPIRY :: int where
  "CACHE_EXPIRY = 1000 * 60 * 30"

definition MANIFEST_URL :: string where
  "MANIFEST_URL = ''/content-manifest.json''"

definition fresh :: "int \<Rightarrow> int \<Rightarrow> bool" where
  \<comment> \<open>\<open>parsedCache.timestamp && Date.now() - parsedCache.timestamp < CACHE_EXPIRY\<close>;
      the number 0 is falsy\<close>
  "fresh ts now = (ts \<noteq> 0 \<and> now - ts < CACHE_EXPIRY)"

text \<open>
  A loader runs up to its \<open>await fetch\<close>, and goes on when the fetch has settled; other
  code runs in between. \<open>started\<close> is where the first part ends, \<open>settled\<close> what the
  call leaves: the value its promise resolves to or rejects with, and the storage.
\<close>

datatype 'a started = Returned 'a | Threw thrown | Awaiting string

record 'a settled =
  result :: "thrown + 'a"
  store :: sessionStorage

text \<open>A whole call, nothing running in between: also the URLs it fetched.\<close>

record 'a call = "'a settled" +
  requests :: "string list"

text \<open>The \<open>catch\<close> blocks: an AbortError is thrown on as it is, anything else is wrapped.\<close>

definition error_message :: "thrown \<Rightarrow> string" where
  \<comment> \<open>\<open>error instanceof Error ? error.message : 'Unknown error'\<close>\<close>
  "error_message e = (case e of ErrorObj n m \<Rightarrow> m | NonError v \<Rightarrow> ''Unknown error'')"

definition is_AbortError :: "thrown \<Rightarrow> bool" where
  \<comment> \<open>\<open>error instanceof Error && error.name === 'AbortError'\<close>\<close>
  "is_AbortError e = (case e of ErrorObj n m \<Rightarrow> n = ''AbortError'' | NonError v \<Rightarrow> False)"

definition manifest_catch :: "thrown \<Rightarrow> thrown" where
  "manifest_catch e =
     (if is_AbortError e then e
      else ErrorObj ''Error'' (''Failed to load content manifest: '' @ error_message e))"

definition lesson_catch :: "Lesson \<Rightarrow> thrown \<Rightarrow> thrown" where
  "lesson_catch lesson e =
     (if is_AbortError e then e
      else ErrorObj ''Error''
             (''Failed to load lesson '' @ [CHR 0x22] @ title lesson @ [CHR 0x22] @ '': '' @ error_message e))"

subsection \<open>\<open>fetchContentManifest\<close>\<close>

definition fetchContentManifest_start :: "sessionStorage \<Rightarrow> int \<Rightarrow> json started" where
  "fetchContentManifest_start st now =
     (case getItem_manifest st of
        Inl e \<Rightarrow> Threw (manifest_catch e)
      | Inr None \<Rightarrow> Awaiting MANIFEST_URL
      | Inr (Some parsedCache) \<Rightarrow>
          if fresh (manifest_timestamp parsedCache) now then Returned (data parsedCache)
          else Awaiting MANIFEST_URL)"

definition fetchContentManifest_finish ::
  "sessionStorage \<Rightarrow> int \<Rightarrow> json fetch_outcome \<Rightarrow> json settled" where
  "fetchContentManifest_finish st now outcome =
     (case outcome of
        Rejected e \<Rightarrow> \<lparr>result = Inl (manifest_catch e), store = st\<rparr>
      | Resolved response \<Rightarrow>
          if \<not> ok response
          then \<lparr>result = Inl (manifest_catch (ErrorObj ''Error''
                  (''Failed to fetch manifest: '' @ show_nat (status response) @ '' '' @ statusText response))),
                store = st\<rparr>
          else
            (case body response of
               Inl e \<Rightarrow> \<lparr>result = Inl (manifest_catch e), store = st\<rparr>
             | Inr manifest \<Rightarrow>
                 (case setItem_manifest st \<lparr>data = manifest, manifest_timestamp = now\<rparr> of
                    Inl e \<Rightarrow> \<lparr>result = Inl (manifest_catch e), store = st\<rparr>
                  | Inr st' \<Rightarrow> \<lparr>result = Inr manifest, store = st'\<rparr>)))"

definition fetchContentManifest ::
  "sessionStorage \<Rightarrow> int \<Rightarrow> (string \<Rightarrow> json fetch_outcome) \<Rightarrow> int \<Rightarrow> json call" where
  \<comment> \<open>\<open>now\<close> is the clock at the cache check, \<open>now'\<close> at the store; \<open>net\<close> answers the fetch\<close>
  "fetchContentManifest st now net now' =
     (case fetchContentManifest_start st now of
        Returned m \<Rightarrow> \<lparr>result = Inr m, store = st, requests = []\<rparr>
      | Threw e \<Rightarrow> \<lparr>result = Inl e, store = st, requests = []\<rparr>
      | Awaiting url \<Rightarrow>
          (let s = fetchContentManifest_finish st now' (net url)
           in \<lparr>result = result s, store = store s, requests = [url]\<rparr>))"

subsection \<open>\<open>fetchLessonContent\<close>\<close>

definition fetchLessonContent_start :: "sessionStorage \<Rightarrow> int \<Rightarrow> Lesson \<Rightarrow> LessonContent started" where
  "fetchLessonContent_start st now lesson =
     (let cacheKey = LESSON_CACHE_PREFIX @ slug lesson
      in case getItem_lesson st cacheKey of
           Inl e \<Rightarrow> Threw (lesson_catch lesson e)
         | Inr None \<Rightarrow> Awaiting (mdPath lesson)
         | Inr (Some parsedCache) \<Rightarrow>
             if fresh (timestamp parsedCache) now
             then Returned \<lparr>markdown = content parsedCache, headings = entry_headings parsedCache\<rparr>
             else Awaiting (mdPath lesson))"

definition fetchLessonContent_finish ::
  "sessionStorage \<Rightarrow> int \<Rightarrow> Lesson \<Rightarrow> string fetch_outcome \<Rightarrow> LessonContent settled" where
  "fetchLessonContent_finish st now lesson outcome =
     (let cacheKey = LESSON_CACHE_PREFIX @ slug lesson
      in case outcome of
           Rejected e \<Rightarrow> \<lparr>result = Inl (lesson_catch lesson e), store = st\<rparr>
         | Resolved response \<Rightarrow>
             if \<not> ok response
             then \<lparr>result = Inl (lesson_catch lesson (ErrorObj ''Error''
                     (''Failed to fetch lesson content: '' @ show_nat (status response) @ '' '' @ statusText response))),
                   store = st\<rparr>
             else
               (case body response of
                  Inl e \<Rightarrow> \<lparr>result = Inl (lesson_catch lesson e), store = st\<rparr>
                | Inr md \<Rightarrow>
                    (let hs = extractHeadings md;
                         cacheEntry = \<lparr>content = md, timestamp = now, entry_headings = hs\<rparr>
                     in case setItem_lesson st cacheKey cacheEntry of
                          Inl e \<Rightarrow> \<lparr>result = Inl (lesson_catch lesson e), store = st\<rparr>
                        | Inr st' \<Rightarrow> \<lparr>result = Inr \<lparr>markdown = md, headings = hs\<rparr>, store = st'\<rparr>)))"

definition fetchLessonContent ::
  "sessionStorage \<Rightarrow> int \<Rightarrow> Lesson \<Rightarrow> (string \<Rightarrow> string fetch_outcome) \<Rightarrow> int \<Rightarrow> LessonContent call" where
  "fetchLessonContent st now lesson net now' =
     (case fetchLessonContent_start st now lesson of
        Returned c \<Rightarrow> \<lparr>result = Inr c, store = st, requests = []\<rparr>
      | Threw e \<Rightarrow> \<lparr>result = Inl e, store = st, requests = []\<rparr>
      | Awaiting url \<Rightarrow>
          (let s = fetchLessonContent_finish st now' lesson (net url)
           in \<lparr>result = result s, store = store s, requests = [url]\<rparr>))"

subsection \<open>The caller: the effect of the \<open>Lesson\<close> route\<close>

record lesson_view =
  lessonContent :: "LessonContent option"
  contentLoading :: bool
  contentError :: "string option"

definition loadContent_begin :: "lesson_view \<Rightarrow> lesson_view" where
  \<comment> \<open>\<open>setContentLoading(true); setContentError(null)\<close>\<close>
  "loadContent_begin v = v\<lparr>contentLoading := True, contentError := None\<rparr>"

definition loadContent_end :: "lesson_view \<Rightarrow> thrown + LessonContent \<Rightarrow> lesson_view" where
  \<comment> \<open>what follows \<open>await fetchLessonContent(lesson, controller.signal)\<close>, with its
      \<open>catch\<close> and \<open>finally\<close>\<close>
  "loadContent_end v r =
     (case r of
        Inr c \<Rightarrow> v\<lparr>lessonContent := Some c, contentLoading := False\<rparr>
      | Inl err \<Rightarrow>
          (case err of
             ErrorObj n m \<Rightarrow>
               if n \<noteq> ''AbortError''
               then v\<lparr>contentError := Some (if m = [] then ''Failed to load lesson content'' else m),
                      contentLoading := False\<rparr>
               else v\<lparr>contentLoading := False\<rparr>
           | NonError x \<Rightarrow> v\<lparr>contentLoading := False\<rparr>))"


subsection \<open>The shape of a manifest, in the words of the specification\<close>

text \<open>
  A \<open>course\<close> object with the required string fields; \<open>lessons\<close> a sequence in which each
  entry has a slug and an order, no two entries the same slug and no two the same order.
\<close>

definition string_member :: "(string \<times> json) list \<Rightarrow> string \<Rightarrow> bool" where
  "string_member ms k = (case map_of ms k of Some (JStr s) \<Rightarrow> True | _ \<Rightarrow> False)"

definition lesson_slug :: "json \<Rightarrow> string option" where
  "lesson_slug j = (case j of JObj ms \<Rightarrow> (case map_of ms ''slug'' of Some (JStr s) \<Rightarrow> Some s | _ \<Rightarrow> None) | _ \<Rightarrow> None)"

definition lesson_order :: "json \<Rightarrow> int option" where
  "lesson_order j = (case j of JObj ms \<Rightarrow> (case map_of ms ''order'' of Some (JNum n) \<Rightarrow> Some n | _ \<Rightarrow> None) | _ \<Rightarrow> None)"

definition valid_manifest_shape :: "json \<Rightarrow> bool" where
  "valid_manifest_shape j =
     (case j of
        JObj ms \<Rightarrow>
          (case (map_of ms ''course'', map_of ms ''lessons'') of
             (Some (JObj c), Some (JArr ls)) \<Rightarrow>
               list_all (string_member c) [''title'', ''tagline'', ''description'', ''coverImage'']
               \<and> list_all (\<lambda>l. lesson_slug l \<noteq> None \<and> lesson_order l \<noteq> None) ls
               \<and> distinct (map lesson_slug ls)
               \<and> distinct (map lesson_order ls)
           | _ \<Rightarrow> False)
      | _ \<Rightarrow> False)"

definition manifest_cache_miss :: "sessionStorage \<Rightarrow> int \<Rightarrow> bool" where
  \<comment> \<open>the storage can be read and holds no manifest that is still fresh\<close>
  "manifest_cache_miss st now =
     (get_fault st = None \<and>
      (case manifest_item st of None \<Rightarrow> True | Some e \<Rightarrow> \<not> fresh (manifest_timestamp e) now))"

definition lesson_cache_miss :: "sessionStorage \<Rightarrow> int \<Rightarrow> Lesson \<Rightarrow> bool" where
  "lesson_cache_miss st now lesson =
     (get_fault st = None \<and>
      (case lesson_items st (LESSON_CACHE_PREFIX @ slug lesson) of
         None \<Rightarrow> True | Some e \<Rightarrow> \<not> fresh (timestamp e) now))"


section \<open>The renderer\<close>

text \<open>
  \<open>MarkdownRenderer\<close> hands the source to a \<open>unified\<close> pipeline of library plugins,
  with \<open>allowDangerousHtml: true\<close> for \<open>remark-rehype\<close> and for \<open>rehype-stringify\<close>, and
  works on the string that comes back with code of its own: a \<open>replace\<close> that puts a copy
  button into every \<open>pre\<close> element that holds a \<open>code\<close> element. The result is given to
  the page as \<open>dangerouslySetInnerHTML\<close>. The pipeline is a parameter here; the
  \<open>replace\<close> is modelled.
\<close>

definition attr :: "string \<Rightarrow> string \<Rightarrow> string" where
  \<comment> \<open>\<open>name="value"\<close>\<close>
  "attr n v = n @ ''='' @ [CHR 0x22] @ v @ [CHR 0x22]"

definition COPY_BUTTON :: string where
  "COPY_BUTTON =
     ''<button '' @ attr ''class'' ''copy-button'' @ '' '' @ attr ''type'' ''button'' @ '' ''
       @ attr ''title'' ''Copy to clipboard'' @ '' '' @ attr ''aria-label'' ''Copy code to clipboard'' @ ''>''
     @ ''<svg '' @ attr ''class'' ''w-4 h-4'' @ '' '' @ attr ''fill'' ''none'' @ '' ''
       @ attr ''stroke'' ''currentColor'' @ '' '' @ attr ''viewBox'' ''0 0 24 24'' @ ''>''
     @ ''<path '' @ attr ''stroke-linecap'' ''round'' @ '' '' @ attr ''stroke-linejoin'' ''round'' @ '' ''
       @ attr ''stroke-width'' ''2'' @ '' ''
       @ attr ''d'' ''M8 16H6a2 2 0 01-2-2V6a2 2 0 012-2h8a2 2 0 012 2v2m-6 12h8a2 2 0 002-2v-8a2 2 0 00-2-2h-8a2 2 0 00-2 2v8a2 2 0 002 2z''
       @ ''>''
     @ ''</path></svg></button>''"

text \<open>
  The matcher for \<open>/<pre[^>]*><code[^>]*>([\s\S]*?)<\/code><\/pre>/\<close> at the current
  position. \<open>[^>]*\<close> runs to the next \<open>>\<close>, and nothing shorter can be followed by
  \<open>>\<close>; the lazy \<open>[\s\S]*?\<close> ends at the first \<open></code></pre>\<close>.
\<close>

definition strip_prefix :: "string \<Rightarrow> string \<Rightarrow> string option" where
  "strip_prefix p s = (if take (length p) s = p then Some (drop (length p) s) else None)"

definition upto_gt :: "string \<Rightarrow> (string \<times> string) option" where
  \<comment> \<open>\<open>([^>]*)>\<close>: the characters before the next \<open>>\<close>, and the input behind it\<close>
  "upto_gt s =
     (let a = takeWhile (\<lambda>c. c \<noteq> CHR ''>'') s
      in case drop (length a) s of [] \<Rightarrow> None | c # r \<Rightarrow> Some (a, r))"

fun upto_closing :: "string \<Rightarrow> (string \<times> string) option" where
  \<comment> \<open>\<open>([\s\S]*?)<\/code><\/pre>\<close>: the input before the first \<open></code></pre>\<close> and behind it\<close>
  "upto_closing [] = None"
| "upto_closing (c # cs) =
     (case strip_prefix ''</code></pre>'' (c # cs) of
        Some r \<Rightarrow> Some ([], r)
      | None \<Rightarrow> map_option (\<lambda>(b, r). (c # b, r)) (upto_closing cs))"

definition match_pre_code :: "string \<Rightarrow> (string \<times> string \<times> string) option" where
  \<comment> \<open>the attributes of \<open>pre\<close>, the match from behind \<open><pre...>\<close> on, and the input behind the match\<close>
  "match_pre_code s =
     (case strip_prefix ''<pre'' s of
        None \<Rightarrow> None
      | Some s1 \<Rightarrow>
          (case upto_gt s1 of
             None \<Rightarrow> None
           | Some (pre_attrs, s2) \<Rightarrow>
               (case strip_prefix ''<code'' s2 of
                  None \<Rightarrow> None
                | Some s3 \<Rightarrow>
                    (case upto_gt s3 of
                       None \<Rightarrow> None
                     | Some (code_attrs, s4) \<Rightarrow>
                         (case upto_closing s4 of
                            None \<Rightarrow> None
                          | Some (codeContent, r) \<Rightarrow>
                              Some (pre_attrs,
                                    ''<code'' @ code_attrs @ ''>'' @ codeContent @ ''</code></pre>'',
                                    r))))))"

lemma strip_prefix_length: "strip_prefix p s = Some r \<Longrightarrow> length r \<le> length s"
  by (auto simp: strip_prefix_def split: if_splits)

lemma upto_gt_length: "upto_gt s = Some (a, r) \<Longrightarrow> length r < length s"
proof -
  assume "upto_gt s = Some (a, r)"
  then obtain c where "drop (length (takeWhile (\<lambda>c. c \<noteq> CHR ''>'') s)) s = c # r"
    by (auto simp: upto_gt_def Let_def split: list.splits)
  then have "length (drop (length (takeWhile (\<lambda>c. c \<noteq> CHR ''>'') s)) s) = Suc (length r)"
    by simp
  then show ?thesis
    by simp
qed

lemma upto_closing_length: "upto_closing s = Some (b, r) \<Longrightarrow> length r \<le> length s"
proof (induction s arbitrary: b r)
  case Nil
  then show ?case by simp
next
  case (Cons c cs)
  then show ?case
    by (fastforce split: option.splits dest: strip_prefix_length)
qed

lemma match_pre_code_length: "match_pre_code s = Some (a, m, r) \<Longrightarrow> length r < length s"
  unfolding match_pre_code_def
  by (auto split: option.splits dest!: strip_prefix_length upto_gt_length upto_closing_length)

text \<open>
  The global \<open>replace\<close>. The replacer rewrites the first \<open><pre...>\<close> of the match, which
  is its beginning, to \<open><pre$1>\<close> followed by the button.
\<close>

function add_copy_buttons :: "string \<Rightarrow> string" where
  "add_copy_buttons s =
     (case match_pre_code s of
        Some (pre_attrs, m, r) \<Rightarrow> ''<pre'' @ pre_attrs @ ''>'' @ COPY_BUTTON @ m @ add_copy_buttons r
      | None \<Rightarrow> (case s of [] \<Rightarrow> [] | c # cs \<Rightarrow> c # add_copy_buttons cs))"
  by pat_completeness auto
termination
  by (relation "measure length") (auto dest: match_pre_code_length)

declare add_copy_buttons.simps [simp del]

definition processedHtml :: "(string \<Rightarrow> string) \<Rightarrow> string \<Rightarrow> string" where
  \<comment> \<open>\<open>process\<close> is the pipeline: \<open>String(await unified()...process(markdown))\<close>\<close>
  "processedHtml process source = add_copy_buttons (process source)"


section \<open>Sample environments\<close>

definition empty_storage :: sessionStorage where
  "empty_storage = \<lparr>get_fault = None, set_fault = None, manifest_item = None, lesson_items = Map.empty\<rparr>"

definition denied_storage :: sessionStorage where
  \<comment> \<open>a browser that denies the storage: every access throws a SecurityError\<close>
  "denied_storage =
     \<lparr>get_fault = Some (ErrorObj ''SecurityError'' ''The operation is insecure.''),
      set_fault = Some (ErrorObj ''SecurityError'' ''The operation is insecure.''),
      manifest_item = None, lesson_items = Map.empty\<rparr>"

definition epoch_storage :: sessionStorage where
  \<comment> \<open>lesson \<open>a\<close> is cached with the timestamp 0\<close>
  "epoch_storage =
     \<lparr>get_fault = None, set_fault = None, manifest_item = None,
      lesson_items = [''lesson-content-a'' \<mapsto> \<lparr>content = ''old'', timestamp = 0, entry_headings = []\<rparr>]\<rparr>"

definition cached_storage :: sessionStorage where
  \<comment> \<open>the manifest and lesson \<open>a\<close> are cached with the timestamp 1000\<close>
  "cached_storage =
     \<lparr>get_fault = None, set_fault = None,
      manifest_item = Some \<lparr>data = JObj [], manifest_timestamp = 1000\<rparr>,
      lesson_items = [''lesson-content-a'' \<mapsto> \<lparr>content = ''old'', timestamp = 1000, entry_headings = []\<rparr>]\<rparr>"

definition ok_response :: "'a \<Rightarrow> 'a fetch_outcome" where
  "ok_response b = Resolved \<lparr>ok = True, status = 200, statusText = ''OK'', body = Inr b\<rparr>"

definition lesson_net :: "string \<Rightarrow> string fetch_outcome" where
  \<comment> \<open>a server that answers every request with the text \<open>## A\<close>\<close>
  "lesson_net url = ok_response ''## A''"

definition duplicate_slug_manifest :: json where
  \<comment> \<open>well-formed JSON in which two lessons have the slug \<open>intro\<close> and the order 1\<close>
  "duplicate_slug_manifest =
     JObj [(''course'', JObj [(''title'', JStr ''PG''), (''tagline'', JStr ''t''),
                              (''description'', JStr ''d''), (''coverImage'', JStr ''c'')]),
           (''lessons'', JArr [JObj [(''order'', JNum 1), (''slug'', JStr ''intro'')],
                               JObj [(''order'', JNum 1), (''slug'', JStr ''intro'')]])]"

definition manifest_net :: "string \<Rightarrow> json fetch_outcome" where
  "manifest_net url = ok_response duplicate_slug_manifest"

definition full_storage :: sessionStorage where
  \<comment> \<open>a storage that can be read and is full\<close>
  "full_storage =
     \<lparr>get_fault = None,
      set_fault = Some (ErrorObj ''QuotaExceededError'' ''The quota has been exceeded.''),
      manifest_item = None, lesson_items = Map.empty\<rparr>"

definition idle_view :: lesson_view where
  "idle_view = \<lparr>lessonContent = None, contentLoading = True, contentError = None\<rparr>"

definition not_found :: "'a fetch_outcome" where
  "not_found =
     Resolved \<lparr>ok = False, status = 404, statusText = ''Not Found'',
               body = Inl (ErrorObj ''SyntaxError'' ''Unexpected token'')\<rparr>"

definition garbled :: "'a fetch_outcome" where
  \<comment> \<open>a success response whose payload does not parse\<close>
  "garbled =
     Resolved \<lparr>ok = True, status = 200, statusText = ''OK'',
               body = Inl (ErrorObj ''SyntaxError'' ''Unexpected token'')\<rparr>"

definition aborted_body :: "'a fetch_outcome" where
  \<comment> \<open>a success response; the signal fires while the body is read\<close>
  "aborted_body =
     Resolved \<lparr>ok = True, status = 200, statusText = ''OK'', body = Inl AbortError\<rparr>"

definition LF :: char where
  "LF = CHR 0x0A"

definition fenced_source :: string where
  \<comment> \<open>a fenced code block with the line \<open>## not a heading\<close> in it\<close>
  "fenced_source = ''```'' @ [LF] @ ''## not a heading'' @ [LF] @ ''```''"

definition repeated_source :: string where
  \<comment> \<open>two headings with the same text\<close>
  "repeated_source = ''## Next Steps'' @ [LF] @ ''text'' @ [LF] @ ''## Next Steps''"

definition SCRIPT_ELEMENT :: string where
  "SCRIPT_ELEMENT = ''<script>alert(1)</script>''"


section \<open>The heading identifier and the canonical slug\<close>

lemma replace_runs_hd:
  "s = [] \<or> hd s \<noteq> HYPHEN \<Longrightarrow> replace_runs (\<lambda>c. c = HYPHEN) s = [] \<or> hd (replace_runs (\<lambda>c. c = HYPHEN) s) \<noteq> HYPHEN"
  by (cases s) auto

lemma dropWhile_hd: "dropWhile p s = [] \<or> \<not> p (hd (dropWhile p s))"
  by (metis hd_dropWhile)

lemma replace_runs_no_double: "no_double_hyphen (replace_runs (\<lambda>c. c = HYPHEN) s)"
proof (induction "\<lambda>c. c = HYPHEN" s rule: replace_runs.induct)
  case 1
  then show ?case by (simp add: no_double_hyphen_def)
next
  case (2 c cs)
  show ?case
  proof (cases "c = HYPHEN")
    case True
    let ?r = "replace_runs (\<lambda>c. c = HYPHEN) (dropWhile (\<lambda>c. c = HYPHEN) cs)"
    have ih: "no_double_hyphen ?r" using 2(1) True by simp
    have h: "?r = [] \<or> hd ?r \<noteq> HYPHEN"
      using replace_runs_hd [of "dropWhile (\<lambda>c. c = HYPHEN) cs"] dropWhile_hd [of "\<lambda>c. c = HYPHEN" cs] by blast
    have "no_double_hyphen (HYPHEN # ?r)"
      unfolding no_double_hyphen_def
    proof (intro allI notI)
      fix u v assume e: "HYPHEN # ?r = u @ HYPHEN # HYPHEN # v"
      show False
      proof (cases u)
        case Nil
        with e h show False by auto
      next
        case (Cons a u')
        with e ih show False by (auto simp: no_double_hyphen_def)
      qed
    qed
    with True show ?thesis by simp
  next
    case False
    have ih: "no_double_hyphen (replace_runs (\<lambda>c. c = HYPHEN) cs)" using 2(2) False by simp
    have "no_double_hyphen (c # replace_runs (\<lambda>c. c = HYPHEN) cs)"
      unfolding no_double_hyphen_def
    proof (intro allI notI)
      fix u v assume e: "c # replace_runs (\<lambda>c. c = HYPHEN) cs = u @ HYPHEN # HYPHEN # v"
      show False
      proof (cases u)
        case Nil
        with e False show False by auto
      next
        case (Cons a u')
        with e ih show False by (auto simp: no_double_hyphen_def)
      qed
    qed
    with False show ?thesis by simp
  qed
qed

lemma no_double_leading:
  assumes "no_double_hyphen s"
  shows "dropWhile (\<lambda>c. c = HYPHEN) s = (case s of [] \<Rightarrow> [] | c # cs \<Rightarrow> if c = HYPHEN then cs else s)"
proof (cases s)
  case Nil
  then show ?thesis by simp
next
  case (Cons c cs)
  show ?thesis
  proof (cases "c = HYPHEN")
    case True
    have "cs = [] \<or> hd cs \<noteq> HYPHEN"
    proof (rule ccontr)
      assume "\<not> (cs = [] \<or> hd cs \<noteq> HYPHEN)"
      then obtain v where "cs = HYPHEN # v" by (cases cs) auto
      with Cons True have "s = [] @ HYPHEN # HYPHEN # v" by simp
      with assms show False unfolding no_double_hyphen_def by blast
    qed
    then have "dropWhile (\<lambda>c. c = HYPHEN) cs = cs" by (cases cs) auto
    with Cons True show ?thesis by simp
  next
    case False
    with Cons show ?thesis by simp
  qed
qed

lemma no_double_tl:
  "no_double_hyphen (c # cs) \<Longrightarrow> no_double_hyphen cs"
  unfolding no_double_hyphen_def
  by (metis append_Cons)

lemma no_double_trailing:
  assumes "no_double_hyphen s"
  shows "rev (dropWhile (\<lambda>c. c = HYPHEN) (rev s)) = (if s \<noteq> [] \<and> last s = HYPHEN then butlast s else s)"
proof (cases "s \<noteq> [] \<and> last s = HYPHEN")
  case True
  then obtain b where s: "s = b @ [HYPHEN]" by (metis append_butlast_last_id)
  have b: "b = [] \<or> last b \<noteq> HYPHEN"
  proof (rule ccontr)
    assume "\<not> (b = [] \<or> last b \<noteq> HYPHEN)"
    then obtain b' where "b = b' @ [HYPHEN]" by (metis append_butlast_last_id)
    with s have "s = b' @ HYPHEN # HYPHEN # []" by simp
    with assms show False unfolding no_double_hyphen_def by blast
  qed
  have "dropWhile (\<lambda>c. c = HYPHEN) (rev b) = rev b"
  proof (cases b rule: rev_cases)
    case Nil
    then show ?thesis by simp
  next
    case (snoc ys y)
    with b show ?thesis by simp
  qed
  then show ?thesis unfolding s by simp
next
  case False
  then have "dropWhile (\<lambda>c. c = HYPHEN) (rev s) = rev s"
    by (cases s rule: rev_cases) auto
  with False show ?thesis by auto
qed

text \<open>
  C6, as stated: \<open>generateHeadingId\<close> is the canonical slug function of the specification
  (lowercase, strip, collapse whitespace runs to single hyphens, trim hyphens). It is not:
  the code also collapses runs of hyphens, so \<open>a - b\<close> gets the identifier \<open>a-b\<close> where
  the four steps of the specification give \<open>a---b\<close>.
\<close>

theorem generateHeadingId_not_canonical_slug:
  "generateHeadingId ''a - b'' = ''a-b'' \<and> canonical_slug ''a - b'' = ''a---b''
   \<and> generateHeadingId ''a - b'' \<noteq> canonical_slug ''a - b''"
  by code_simp

text \<open>
  C6, amended: for every input string, \<open>generateHeadingId\<close> is the canonical slug function
  with one more step: lowercase, strip the characters outside \<open>[a-z0-9\s-]\<close>, collapse
  whitespace runs to single hyphens, collapse hyphen runs to a single hyphen, trim all
  leading and trailing hyphens. (The code removes one hyphen at each end; after the
  collapse that is all of them.)
\<close>

theorem generateHeadingId_canonical_slug_squeezed:
  "generateHeadingId t = canonical_slug_squeezed t"
proof -
  let ?r = "replace_runs (\<lambda>c. c = HYPHEN) (replace_runs is_space (remove_outside slug_char (toLowerCase t)))"
  have nd: "no_double_hyphen ?r" by (rule replace_runs_no_double)
  let ?s1 = "case ?r of [] \<Rightarrow> [] | c # cs \<Rightarrow> if c = HYPHEN then cs else ?r"
  have l: "dropWhile (\<lambda>c. c = HYPHEN) ?r = ?s1" by (rule no_double_leading [OF nd])
  have "no_double_hyphen ?s1" using nd no_double_tl by (auto split: list.splits)
  then have "rev (dropWhile (\<lambda>c. c = HYPHEN) (rev ?s1)) = (if ?s1 \<noteq> [] \<and> last ?s1 = HYPHEN then butlast ?s1 else ?s1)"
    by (rule no_double_trailing)
  then show ?thesis
    unfolding generateHeadingId_def canonical_slug_squeezed_def trim_hyphens_def remove_edge_hyphens_def Let_def l
    by simp
qed


section \<open>Lesson navigation\<close>

lemma findIndex_from_none:
  "\<forall>x \<in> set xs. \<not> p x \<Longrightarrow> findIndex_from k p xs = -1"
  by (induction xs arbitrary: k) auto

lemma findIndex_from_first:
  "i < length xs \<Longrightarrow> p (xs ! i) \<Longrightarrow> \<forall>j < i. \<not> p (xs ! j) \<Longrightarrow> findIndex_from k p xs = k + int i"
proof (induction xs arbitrary: k i)
  case Nil
  then show ?case by simp
next
  case (Cons x xs)
  show ?case
  proof (cases i)
    case 0
    with Cons.prems show ?thesis by simp
  next
    case (Suc i')
    with Cons.prems have "\<not> p x" by auto
    moreover have "findIndex_from (k + 1) p xs = (k + 1) + int i'"
      using Cons.prems Suc by (intro Cons.IH) auto
    ultimately show ?thesis using Suc by simp
  qed
qed

text \<open>
  C10: if no lesson of the manifest has the slug, \<open>getLessonNavigation\<close> returns
  \<open>previous = undefined\<close> and \<open>next = undefined\<close>. Otherwise, with \<open>i\<close> the index of the
  first lesson that has the slug, \<open>previous\<close> is undefined exactly when \<open>i\<close> is the first
  index and \<open>next\<close> exactly when \<open>i\<close> is the last; when defined they are the slug and title of
  the lessons at \<open>i - 1\<close> and \<open>i + 1\<close>. The call never throws.
\<close>

theorem getLessonNavigation_adjacent:
  "((\<forall>l \<in> set (lessons m). slug l \<noteq> s) \<longrightarrow>
      getLessonNavigation m s = Inr \<lparr>previous = None, next = None\<rparr>)
   \<and> (i < length (lessons m) \<and> slug (lessons m ! i) = s \<and> (\<forall>j < i. slug (lessons m ! j) \<noteq> s) \<longrightarrow>
      getLessonNavigation m s =
        Inr \<lparr>previous = (if i = 0 then None else Some (link (lessons m ! (i - 1)))),
             next = (if i = length (lessons m) - 1 then None else Some (link (lessons m ! (i + 1))))\<rparr>)"
proof (intro conjI impI)
  assume "\<forall>l \<in> set (lessons m). slug l \<noteq> s"
  then have "findIndex (\<lambda>lesson. slug lesson = s) (lessons m) = -1"
    unfolding findIndex_def by (intro findIndex_from_none) auto
  then show "getLessonNavigation m s = Inr \<lparr>previous = None, next = None\<rparr>"
    by (simp add: getLessonNavigation_def)
next
  assume a: "i < length (lessons m) \<and> slug (lessons m ! i) = s \<and> (\<forall>j < i. slug (lessons m ! j) \<noteq> s)"
  then have f: "findIndex (\<lambda>lesson. slug lesson = s) (lessons m) = int i"
    unfolding findIndex_def using findIndex_from_first [of i "lessons m" "\<lambda>lesson. slug lesson = s" 0] by simp
  have p: "0 < i \<Longrightarrow> at (lessons m) (int i - 1) = Some (lessons m ! (i - 1))"
    using a by (simp add: at_def nat_diff_distrib')
  have n: "int i < int (length (lessons m)) - 1 \<Longrightarrow> at (lessons m) (int i + 1) = Some (lessons m ! (i + 1))"
    using a by (simp add: at_def nat_add_distrib)
  have e: "(int i < int (length (lessons m)) - 1) = (i \<noteq> length (lessons m) - 1)"
    using a by auto
  show "getLessonNavigation m s =
        Inr \<lparr>previous = (if i = 0 then None else Some (link (lessons m ! (i - 1)))),
             next = (if i = length (lessons m) - 1 then None else Some (link (lessons m ! (i + 1))))\<rparr>"
    using p n e by (auto simp: getLessonNavigation_def f link_of_def link_def Let_def)
qed

theorem getLessonNavigation_adjacent_witness: "getLessonNavigation example_manifest ''d'' = Inr \<lparr>previous = None, next = None\<rparr>
  \<and> getLessonNavigation example_manifest ''b'' = Inr \<lparr>previous = Some \<lparr>link_slug = ''a'', link_title = ''Ta''\<rparr>, next = Some \<lparr>link_slug = ''c'', link_title = ''Tc''\<rparr>\<rparr>"
proof -
  have 1: "\<forall>l \<in> set (lessons example_manifest). slug l \<noteq> ''d''" by (simp add: example_manifest_def example_lesson_def)
  have 2: "1 < length (lessons example_manifest) \<and> slug (lessons example_manifest ! 1) = ''b'' \<and> (\<forall>j < 1. slug (lessons example_manifest ! j) \<noteq> ''b'')"
    by (simp add: example_manifest_def example_lesson_def)
  from getLessonNavigation_adjacent [of example_manifest "''d''" 1] 1 have a: "getLessonNavigation example_manifest ''d'' = Inr \<lparr>previous = None, next = None\<rparr>" by blast
  from getLessonNavigation_adjacent [of example_manifest "''b''" 1] 2 have b: "getLessonNavigation example_manifest ''b'' =
        Inr \<lparr>previous = (if (1::nat) = 0 then None else Some (link (lessons example_manifest ! (1 - 1)))),
             next = (if 1 = length (lessons example_manifest) - 1 then None else Some (link (lessons example_manifest ! (1 + 1))))\<rparr>" by blast
  show ?thesis using a b by (simp add: example_manifest_def example_lesson_def link_def)
qed

section \<open>Properties of the loaders\<close>

lemma fetchLessonContent_start_hit:
  "get_fault st = None \<Longrightarrow> lesson_items st (LESSON_CACHE_PREFIX @ slug lesson) = Some e \<Longrightarrow> fresh (timestamp e) now \<Longrightarrow>
   fetchLessonContent_start st now lesson = Returned \<lparr>markdown = content e, headings = entry_headings e\<rparr>"
  by (simp add: fetchLessonContent_start_def getItem_lesson_def)

lemma fetchLessonContent_start_miss:
  "lesson_cache_miss st now lesson \<Longrightarrow> fetchLessonContent_start st now lesson = Awaiting (mdPath lesson)"
  by (auto simp: fetchLessonContent_start_def getItem_lesson_def lesson_cache_miss_def split: option.splits)

lemma fetchLessonContent_start_fault:
  "get_fault st = Some x \<Longrightarrow> fetchLessonContent_start st now lesson = Threw (lesson_catch lesson x)"
  by (simp add: fetchLessonContent_start_def getItem_lesson_def)

lemma fetchContentManifest_start_hit:
  "get_fault st = None \<Longrightarrow> manifest_item st = Some e \<Longrightarrow> fresh (manifest_timestamp e) now \<Longrightarrow>
   fetchContentManifest_start st now = Returned (data e)"
  by (simp add: fetchContentManifest_start_def getItem_manifest_def)

lemma fetchContentManifest_start_miss:
  "manifest_cache_miss st now \<Longrightarrow> fetchContentManifest_start st now = Awaiting MANIFEST_URL"
  by (auto simp: fetchContentManifest_start_def getItem_manifest_def manifest_cache_miss_def split: option.splits)

lemma fetchContentManifest_start_fault:
  "get_fault st = Some x \<Longrightarrow> fetchContentManifest_start st now = Threw (manifest_catch x)"
  by (simp add: fetchContentManifest_start_def getItem_manifest_def)

lemma fetchLessonContent_finish_stored:
  "set_fault st = None \<Longrightarrow>
   fetchLessonContent_finish st now lesson (ok_response md)
     = \<lparr>result = Inr \<lparr>markdown = md, headings = extractHeadings md\<rparr>,
        store = st\<lparr>lesson_items := (lesson_items st)(LESSON_CACHE_PREFIX @ slug lesson \<mapsto>
                  \<lparr>content = md, timestamp = now, entry_headings = extractHeadings md\<rparr>)\<rparr>\<rparr>"
  by (simp add: fetchLessonContent_finish_def ok_response_def setItem_lesson_def Let_def)

lemma fetchLessonContent_finish_full:
  "set_fault st = Some x \<Longrightarrow>
   fetchLessonContent_finish st now lesson (ok_response md) = \<lparr>result = Inl (lesson_catch lesson x), store = st\<rparr>"
  by (simp add: fetchLessonContent_finish_def ok_response_def setItem_lesson_def Let_def)

lemma fetchContentManifest_finish_stored:
  "set_fault st = None \<Longrightarrow> ok r \<Longrightarrow> body r = Inr payload \<Longrightarrow>
   fetchContentManifest_finish st now (Resolved r)
     = \<lparr>result = Inr payload, store = st\<lparr>manifest_item := Some \<lparr>data = payload, manifest_timestamp = now\<rparr>\<rparr>\<rparr>"
  by (simp add: fetchContentManifest_finish_def setItem_manifest_def)

lemma fetchContentManifest_finish_full:
  "set_fault st = Some x \<Longrightarrow> ok r \<Longrightarrow> body r = Inr payload \<Longrightarrow>
   fetchContentManifest_finish st now (Resolved r) = \<lparr>result = Inl (manifest_catch x), store = st\<rparr>"
  by (simp add: fetchContentManifest_finish_def setItem_manifest_def)

lemma fetchContentManifest_finish_not_ok:
  "\<not> ok r \<Longrightarrow>
   fetchContentManifest_finish st now (Resolved r)
     = \<lparr>result = Inl (ErrorObj ''Error'' (''Failed to load content manifest: Failed to fetch manifest: ''
                        @ show_nat (status r) @ '' '' @ statusText r)),
        store = st\<rparr>"
  by (simp add: fetchContentManifest_finish_def manifest_catch_def is_AbortError_def error_message_def)

lemma fetchContentManifest_finish_bad_body:
  "ok r \<Longrightarrow> body r = Inl e \<Longrightarrow>
   fetchContentManifest_finish st now (Resolved r) = \<lparr>result = Inl (manifest_catch e), store = st\<rparr>"
  by (simp add: fetchContentManifest_finish_def)

lemma lesson_catch_abort: "is_AbortError e \<Longrightarrow> lesson_catch lesson e = e"
  by (simp add: lesson_catch_def)

lemma loadContent_end_abort: "is_AbortError e \<Longrightarrow> loadContent_end v (Inl e) = v\<lparr>contentLoading := False\<rparr>"
  by (cases e) (auto simp: loadContent_end_def is_AbortError_def)

subsection \<open>Expiry\<close>

text \<open>
  C8, as stated: every cache entry read while \<open>now - storedAt < ttl\<close> is returned without
  network I/O. The code tests \<open>parsedCache.timestamp\<close> for truthiness before it compares:
  an entry stored with the timestamp 0 and read 5 ms later is passed over, and the lesson
  is fetched.
\<close>

theorem zero_timestamp_entry_refetched:
  "lesson_items epoch_storage ''lesson-content-a'' = Some \<lparr>content = ''old'', timestamp = 0, entry_headings = []\<rparr>
   \<and> (5::int) - 0 < CACHE_EXPIRY
   \<and> requests (fetchLessonContent epoch_storage 5 (example_lesson 1 ''a'') lesson_net 7) = [''/content/lessons/a.md'']
   \<and> result (fetchLessonContent epoch_storage 5 (example_lesson 1 ''a'') lesson_net 7)
       = Inr \<lparr>markdown = ''## A'', headings = [TOCHeading ''a'' 2 ''A'' None]\<rparr>"
  by code_simp

text \<open>
  C8, amended: the time to live is fixed at 30 minutes. For every cache entry whose
  timestamp is not 0, of a lesson or of the manifest, in a storage that can be read: a
  read while \<open>now - storedAt < ttl\<close> returns the stored value, leaves the storage as it is
  and fetches nothing; a read at or after \<open>ttl\<close> is a miss: the loader fetches the
  resource and ends as the fetch decides. Validity is checked in the read itself.
\<close>

theorem cache_ttl:
  "CACHE_EXPIRY = 30 * 60 * 1000
   \<and> (get_fault st = None \<and> lesson_items st (LESSON_CACHE_PREFIX @ slug lesson) = Some e \<and> timestamp e \<noteq> 0 \<longrightarrow>
        (now - timestamp e < CACHE_EXPIRY \<longrightarrow>
           fetchLessonContent st now lesson net now'
             = \<lparr>result = Inr \<lparr>markdown = content e, headings = entry_headings e\<rparr>, store = st, requests = []\<rparr>)
        \<and> (CACHE_EXPIRY \<le> now - timestamp e \<longrightarrow>
           fetchLessonContent st now lesson net now'
             = \<lparr>result = result (fetchLessonContent_finish st now' lesson (net (mdPath lesson))),
                store = store (fetchLessonContent_finish st now' lesson (net (mdPath lesson))),
                requests = [mdPath lesson]\<rparr>))
   \<and> (get_fault st = None \<and> manifest_item st = Some m \<and> manifest_timestamp m \<noteq> 0 \<longrightarrow>
        (now - manifest_timestamp m < CACHE_EXPIRY \<longrightarrow>
           fetchContentManifest st now mnet now' = \<lparr>result = Inr (data m), store = st, requests = []\<rparr>)
        \<and> (CACHE_EXPIRY \<le> now - manifest_timestamp m \<longrightarrow>
           fetchContentManifest st now mnet now'
             = \<lparr>result = result (fetchContentManifest_finish st now' (mnet MANIFEST_URL)),
                store = store (fetchContentManifest_finish st now' (mnet MANIFEST_URL)),
                requests = [MANIFEST_URL]\<rparr>))"
proof (intro conjI impI)
  show "CACHE_EXPIRY = 30 * 60 * 1000" by (simp add: CACHE_EXPIRY_def)
next
  assume a: "get_fault st = None \<and> lesson_items st (LESSON_CACHE_PREFIX @ slug lesson) = Some e \<and> timestamp e \<noteq> 0"
    and "now - timestamp e < CACHE_EXPIRY"
  then have "fresh (timestamp e) now" by (simp add: fresh_def)
  with a have "fetchLessonContent_start st now lesson = Returned \<lparr>markdown = content e, headings = entry_headings e\<rparr>"
    by (intro fetchLessonContent_start_hit) auto
  then show "fetchLessonContent st now lesson net now'
           = \<lparr>result = Inr \<lparr>markdown = content e, headings = entry_headings e\<rparr>, store = st, requests = []\<rparr>"
    by (simp add: fetchLessonContent_def)
next
  assume a: "get_fault st = None \<and> lesson_items st (LESSON_CACHE_PREFIX @ slug lesson) = Some e \<and> timestamp e \<noteq> 0"
    and "CACHE_EXPIRY \<le> now - timestamp e"
  then have "lesson_cache_miss st now lesson" by (simp add: fresh_def lesson_cache_miss_def)
  from fetchLessonContent_start_miss [OF this]
  show "fetchLessonContent st now lesson net now'
           = \<lparr>result = result (fetchLessonContent_finish st now' lesson (net (mdPath lesson))),
              store = store (fetchLessonContent_finish st now' lesson (net (mdPath lesson))),
              requests = [mdPath lesson]\<rparr>"
    by (simp add: fetchLessonContent_def Let_def)
next
  assume a: "get_fault st = None \<and> manifest_item st = Some m \<and> manifest_timestamp m \<noteq> 0"
    and "now - manifest_timestamp m < CACHE_EXPIRY"
  then have "fresh (manifest_timestamp m) now" by (simp add: fresh_def)
  with a have "fetchContentManifest_start st now = Returned (data m)"
    by (intro fetchContentManifest_start_hit) auto
  then show "fetchContentManifest st now mnet now' = \<lparr>result = Inr (data m), store = st, requests = []\<rparr>"
    by (simp add: fetchContentManifest_def)
next
  assume a: "get_fault st = None \<and> manifest_item st = Some m \<and> manifest_timestamp m \<noteq> 0"
    and "CACHE_EXPIRY \<le> now - manifest_timestamp m"
  then have "manifest_cache_miss st now" by (simp add: fresh_def manifest_cache_miss_def)
  from fetchContentManifest_start_miss [OF this]
  show "fetchContentManifest st now mnet now'
             = \<lparr>result = result (fetchContentManifest_finish st now' (mnet MANIFEST_URL)),
                store = store (fetchContentManifest_finish st now' (mnet MANIFEST_URL)),
                requests = [MANIFEST_URL]\<rparr>"
    by (simp add: fetchContentManifest_def Let_def)
qed

theorem cache_ttl_witness:
  "fetchLessonContent cached_storage 2000 (example_lesson 1 ''a'') lesson_net 2001
     = \<lparr>result = Inr \<lparr>markdown = ''old'', headings = []\<rparr>, store = cached_storage, requests = []\<rparr>
   \<and> requests (fetchLessonContent cached_storage 1801000 (example_lesson 1 ''a'') lesson_net 1801001)
       = [''/content/lessons/a.md'']
   \<and> fetchContentManifest cached_storage 2000 manifest_net 2001
     = \<lparr>result = Inr (JObj []), store = cached_storage, requests = []\<rparr>
   \<and> requests (fetchContentManifest cached_storage 1801000 manifest_net 1801001) = [''/content-manifest.json'']"
proof -
  let ?e = "\<lparr>content = ''old'', timestamp = 1000, entry_headings = []\<rparr>"
  let ?m = "\<lparr>data = JObj [], manifest_timestamp = 1000\<rparr>"
  let ?l = "example_lesson 1 ''a''"
  have h: "get_fault cached_storage = None \<and> lesson_items cached_storage (LESSON_CACHE_PREFIX @ slug ?l) = Some ?e \<and> timestamp ?e \<noteq> 0"
    by (simp add: cached_storage_def LESSON_CACHE_PREFIX_def example_lesson_def)
  have g: "get_fault cached_storage = None \<and> manifest_item cached_storage = Some ?m \<and> manifest_timestamp ?m \<noteq> 0"
    by (simp add: cached_storage_def)
  have 1: "2000 - timestamp ?e < CACHE_EXPIRY" and 2: "CACHE_EXPIRY \<le> 1801000 - timestamp ?e"
    and 3: "2000 - manifest_timestamp ?m < CACHE_EXPIRY" and 4: "CACHE_EXPIRY \<le> 1801000 - manifest_timestamp ?m"
    by (simp_all add: CACHE_EXPIRY_def)
  have a: "fetchLessonContent cached_storage 2000 ?l lesson_net 2001
     = \<lparr>result = Inr \<lparr>markdown = content ?e, headings = entry_headings ?e\<rparr>, store = cached_storage, requests = []\<rparr>"
    using cache_ttl [of cached_storage ?l ?e 2000 lesson_net 2001 ?m manifest_net] h 1 by blast
  have b: "fetchContentManifest cached_storage 2000 manifest_net 2001
     = \<lparr>result = Inr (data ?m), store = cached_storage, requests = []\<rparr>"
    using cache_ttl [of cached_storage ?l ?e 2000 lesson_net 2001 ?m manifest_net] g 3 by blast
  have c: "fetchLessonContent cached_storage 1801000 ?l lesson_net 1801001
             = \<lparr>result = result (fetchLessonContent_finish cached_storage 1801001 ?l (lesson_net (mdPath ?l))),
                store = store (fetchLessonContent_finish cached_storage 1801001 ?l (lesson_net (mdPath ?l))),
                requests = [mdPath ?l]\<rparr>"
    using cache_ttl [of cached_storage ?l ?e 1801000 lesson_net 1801001 ?m manifest_net] h 2 by blast
  have d: "fetchContentManifest cached_storage 1801000 manifest_net 1801001
             = \<lparr>result = result (fetchContentManifest_finish cached_storage 1801001 (manifest_net MANIFEST_URL)),
                store = store (fetchContentManifest_finish cached_storage 1801001 (manifest_net MANIFEST_URL)),
                requests = [MANIFEST_URL]\<rparr>"
    using cache_ttl [of cached_storage ?l ?e 1801000 lesson_net 1801001 ?m manifest_net] g 4 by blast
  show ?thesis
    unfolding a b c d by (simp add: example_lesson_def MANIFEST_URL_def)
qed


subsection \<open>A storage that throws\<close>

text \<open>
  C7, as stated: when the session storage cannot be read or written, the loaders fall back
  to a store in memory and still succeed. They do not: with a storage that throws on
  access both loaders reject, before any request is made, although the server would
  have answered.
\<close>

theorem storage_denied_loaders_fail:
  "result (fetchContentManifest denied_storage 5 manifest_net 7)
     = Inl (ErrorObj ''Error'' ''Failed to load content manifest: The operation is insecure.'')
   \<and> requests (fetchContentManifest denied_storage 5 manifest_net 7) = []
   \<and> result (fetchLessonContent denied_storage 5 (example_lesson 1 ''a'') lesson_net 7)
     = Inl (ErrorObj ''Error'' (''Failed to load lesson '' @ [CHR 0x22] @ ''Ta'' @ [CHR 0x22] @ '': The operation is insecure.''))
   \<and> requests (fetchLessonContent denied_storage 5 (example_lesson 1 ''a'') lesson_net 7) = []"
  by code_simp

text \<open>
  C7, amended: there is no fallback store. If reading the session storage throws, a call
  of either loader rejects with what its \<open>catch\<close> block makes of the thrown value (an
  Error \<open>Failed to load ...\<close> with the message of the thrown value), fetches nothing and leaves
  the storage alone. If the read is a miss and writing throws, the loader fetches, and
  then rejects in the same way although the fetch succeeded.
\<close>

theorem storage_fault_fails:
  "(get_fault st = Some x \<longrightarrow>
      fetchContentManifest st now mnet now' = \<lparr>result = Inl (manifest_catch x), store = st, requests = []\<rparr>
      \<and> fetchLessonContent st now lesson lnet now' = \<lparr>result = Inl (lesson_catch lesson x), store = st, requests = []\<rparr>)
   \<and> (set_fault st = Some x \<and> manifest_cache_miss st now \<and> mnet MANIFEST_URL = ok_response payload \<longrightarrow>
      fetchContentManifest st now mnet now' = \<lparr>result = Inl (manifest_catch x), store = st, requests = [MANIFEST_URL]\<rparr>)
   \<and> (set_fault st = Some x \<and> lesson_cache_miss st now lesson \<and> lnet (mdPath lesson) = ok_response md \<longrightarrow>
      fetchLessonContent st now lesson lnet now' = \<lparr>result = Inl (lesson_catch lesson x), store = st, requests = [mdPath lesson]\<rparr>)"
proof (intro conjI impI)
  assume "get_fault st = Some x"
  then show "fetchContentManifest st now mnet now' = \<lparr>result = Inl (manifest_catch x), store = st, requests = []\<rparr>"
    by (simp add: fetchContentManifest_def fetchContentManifest_start_fault)
next
  assume "get_fault st = Some x"
  then show "fetchLessonContent st now lesson lnet now' = \<lparr>result = Inl (lesson_catch lesson x), store = st, requests = []\<rparr>"
    by (simp add: fetchLessonContent_def fetchLessonContent_start_fault)
next
  assume a: "set_fault st = Some x \<and> manifest_cache_miss st now \<and> mnet MANIFEST_URL = ok_response payload"
  then have "fetchContentManifest_finish st now' (mnet MANIFEST_URL) = \<lparr>result = Inl (manifest_catch x), store = st\<rparr>"
    by (simp add: ok_response_def fetchContentManifest_finish_full)
  with a show "fetchContentManifest st now mnet now' = \<lparr>result = Inl (manifest_catch x), store = st, requests = [MANIFEST_URL]\<rparr>"
    by (simp add: fetchContentManifest_def fetchContentManifest_start_miss)
next
  assume a: "set_fault st = Some x \<and> lesson_cache_miss st now lesson \<and> lnet (mdPath lesson) = ok_response md"
  then have "fetchLessonContent_finish st now' lesson (lnet (mdPath lesson)) = \<lparr>result = Inl (lesson_catch lesson x), store = st\<rparr>"
    by (simp add: fetchLessonContent_finish_full)
  with a show "fetchLessonContent st now lesson lnet now' = \<lparr>result = Inl (lesson_catch lesson x), store = st, requests = [mdPath lesson]\<rparr>"
    by (simp add: fetchLessonContent_def fetchLessonContent_start_miss)
qed

theorem storage_fault_fails_witness:
  "fetchLessonContent denied_storage 5 (example_lesson 1 ''a'') lesson_net 7
     = \<lparr>result = Inl (lesson_catch (example_lesson 1 ''a'') (ErrorObj ''SecurityError'' ''The operation is insecure.'')),
        store = denied_storage, requests = []\<rparr>
   \<and> fetchContentManifest full_storage 5 manifest_net 7
     = \<lparr>result = Inl (manifest_catch (ErrorObj ''QuotaExceededError'' ''The quota has been exceeded.'')),
        store = full_storage, requests = [MANIFEST_URL]\<rparr>
   \<and> fetchLessonContent full_storage 5 (example_lesson 1 ''a'') lesson_net 7
     = \<lparr>result = Inl (lesson_catch (example_lesson 1 ''a'') (ErrorObj ''QuotaExceededError'' ''The quota has been exceeded.'')),
        store = full_storage, requests = [mdPath (example_lesson 1 ''a'')]\<rparr>"
proof -
  let ?l = "example_lesson 1 ''a''"
  let ?s = "ErrorObj ''SecurityError'' ''The operation is insecure.''"
  let ?q = "ErrorObj ''QuotaExceededError'' ''The quota has been exceeded.''"
  have 1: "get_fault denied_storage = Some ?s" by (simp add: denied_storage_def)
  have 2: "set_fault full_storage = Some ?q \<and> manifest_cache_miss full_storage 5 \<and> manifest_net MANIFEST_URL = ok_response duplicate_slug_manifest"
    by (simp add: full_storage_def manifest_cache_miss_def manifest_net_def)
  have 3: "set_fault full_storage = Some ?q \<and> lesson_cache_miss full_storage 5 ?l \<and> lesson_net (mdPath ?l) = ok_response ''## A''"
    by (simp add: full_storage_def lesson_cache_miss_def lesson_net_def)
  have a: "fetchLessonContent denied_storage 5 ?l lesson_net 7 = \<lparr>result = Inl (lesson_catch ?l ?s), store = denied_storage, requests = []\<rparr>"
    using storage_fault_fails [where st = denied_storage and x = ?s and now = 5 and mnet = manifest_net and now' = 7 and lesson = ?l and lnet = lesson_net] 1 by blast
  have b: "fetchContentManifest full_storage 5 manifest_net 7 = \<lparr>result = Inl (manifest_catch ?q), store = full_storage, requests = [MANIFEST_URL]\<rparr>"
    using storage_fault_fails [where st = full_storage and x = ?q and now = 5 and mnet = manifest_net and now' = 7 and lesson = ?l and lnet = lesson_net and payload = duplicate_slug_manifest and md = "''## A''"] 2 by blast
  have c: "fetchLessonContent full_storage 5 ?l lesson_net 7 = \<lparr>result = Inl (lesson_catch ?l ?q), store = full_storage, requests = [mdPath ?l]\<rparr>"
    using storage_fault_fails [where st = full_storage and x = ?q and now = 5 and mnet = manifest_net and now' = 7 and lesson = ?l and lnet = lesson_net and payload = duplicate_slug_manifest and md = "''## A''"] 3 by blast
  from a b c show ?thesis by simp
qed

subsection \<open>The manifest payload\<close>

text \<open>
  C4, as stated: on a miss the manifest loader validates the shape of the payload, raises
  a ValidationError for a payload that violates it and caches nothing. The code has no
  validation: a payload in which two lessons share slug and order is returned to the
  caller and cached.
\<close>

theorem manifest_duplicate_slugs_cached:
  "\<not> valid_manifest_shape duplicate_slug_manifest
   \<and> result (fetchContentManifest empty_storage 5 manifest_net 7) = Inr duplicate_slug_manifest
   \<and> manifest_item (store (fetchContentManifest empty_storage 5 manifest_net 7))
       = Some \<lparr>data = duplicate_slug_manifest, manifest_timestamp = 7\<rparr>"
  by code_simp

text \<open>
  C4, amended: on a manifest cache miss \<open>fetchContentManifest\<close> fetches the manifest and
  parses it as JSON. Whatever value the payload parses to is stored with the current
  time and returned, its shape unchecked. A response that is not a success, and a
  payload that does not parse, make the call reject with an Error
  \<open>Failed to load content manifest: ...\<close>, and nothing is cached.
\<close>

theorem manifest_not_validated:
  "manifest_cache_miss st now \<and> net MANIFEST_URL = Resolved r \<longrightarrow>
     (ok r \<and> body r = Inr payload \<and> set_fault st = None \<longrightarrow>
        fetchContentManifest st now net now'
          = \<lparr>result = Inr payload,
             store = st\<lparr>manifest_item := Some \<lparr>data = payload, manifest_timestamp = now'\<rparr>\<rparr>,
             requests = [MANIFEST_URL]\<rparr>)
     \<and> (\<not> ok r \<longrightarrow>
        fetchContentManifest st now net now'
          = \<lparr>result = Inl (ErrorObj ''Error'' (''Failed to load content manifest: Failed to fetch manifest: ''
                             @ show_nat (status r) @ '' '' @ statusText r)),
             store = st, requests = [MANIFEST_URL]\<rparr>)
     \<and> (ok r \<and> body r = Inl e \<longrightarrow>
        fetchContentManifest st now net now'
          = \<lparr>result = Inl (manifest_catch e), store = st, requests = [MANIFEST_URL]\<rparr>)"
proof (intro conjI impI)
  assume a: "manifest_cache_miss st now \<and> net MANIFEST_URL = Resolved r"
    and b: "ok r \<and> body r = Inr payload \<and> set_fault st = None"
  from b have "fetchContentManifest_finish st now' (Resolved r)
     = \<lparr>result = Inr payload, store = st\<lparr>manifest_item := Some \<lparr>data = payload, manifest_timestamp = now'\<rparr>\<rparr>\<rparr>"
    by (intro fetchContentManifest_finish_stored) auto
  with a show "fetchContentManifest st now net now'
          = \<lparr>result = Inr payload,
             store = st\<lparr>manifest_item := Some \<lparr>data = payload, manifest_timestamp = now'\<rparr>\<rparr>,
             requests = [MANIFEST_URL]\<rparr>"
    by (simp add: fetchContentManifest_def fetchContentManifest_start_miss)
next
  assume a: "manifest_cache_miss st now \<and> net MANIFEST_URL = Resolved r" and b: "\<not> ok r"
  from a fetchContentManifest_finish_not_ok [OF b, of st now']
  show "fetchContentManifest st now net now'
          = \<lparr>result = Inl (ErrorObj ''Error'' (''Failed to load content manifest: Failed to fetch manifest: ''
                             @ show_nat (status r) @ '' '' @ statusText r)),
             store = st, requests = [MANIFEST_URL]\<rparr>"
    by (simp add: fetchContentManifest_def fetchContentManifest_start_miss)
next
  assume a: "manifest_cache_miss st now \<and> net MANIFEST_URL = Resolved r" and b: "ok r \<and> body r = Inl e"
  from b have "fetchContentManifest_finish st now' (Resolved r) = \<lparr>result = Inl (manifest_catch e), store = st\<rparr>"
    by (intro fetchContentManifest_finish_bad_body) auto
  with a show "fetchContentManifest st now net now' = \<lparr>result = Inl (manifest_catch e), store = st, requests = [MANIFEST_URL]\<rparr>"
    by (simp add: fetchContentManifest_def fetchContentManifest_start_miss)
qed


theorem manifest_not_validated_witness:
  "fetchContentManifest empty_storage 5 manifest_net 7
     = \<lparr>result = Inr duplicate_slug_manifest,
        store = empty_storage\<lparr>manifest_item := Some \<lparr>data = duplicate_slug_manifest, manifest_timestamp = 7\<rparr>\<rparr>,
        requests = [MANIFEST_URL]\<rparr>
   \<and> fetchContentManifest empty_storage 5 (\<lambda>url. not_found) 7
     = \<lparr>result = Inl (ErrorObj ''Error'' ''Failed to load content manifest: Failed to fetch manifest: 404 Not Found''),
        store = empty_storage, requests = [MANIFEST_URL]\<rparr>
   \<and> fetchContentManifest empty_storage 5 (\<lambda>url. garbled) 7
     = \<lparr>result = Inl (ErrorObj ''Error'' ''Failed to load content manifest: Unexpected token''),
        store = empty_storage, requests = [MANIFEST_URL]\<rparr>"
proof -
  let ?ok = "\<lparr>ok = True, status = 200, statusText = ''OK'', body = Inr duplicate_slug_manifest\<rparr>"
  let ?nf = "\<lparr>ok = False, status = 404, statusText = ''Not Found'', body = Inl (ErrorObj ''SyntaxError'' ''Unexpected token'') :: thrown + json\<rparr>"
  let ?gb = "\<lparr>ok = True, status = 200, statusText = ''OK'', body = Inl (ErrorObj ''SyntaxError'' ''Unexpected token'') :: thrown + json\<rparr>"
  have m: "manifest_cache_miss empty_storage 5" by (simp add: manifest_cache_miss_def empty_storage_def)
  have 1: "manifest_net MANIFEST_URL = Resolved ?ok" "ok ?ok \<and> body ?ok = Inr duplicate_slug_manifest \<and> set_fault empty_storage = None"
    by (simp_all add: manifest_net_def ok_response_def empty_storage_def)
  have 2: "(\<lambda>url. not_found) MANIFEST_URL = Resolved ?nf" "\<not> ok ?nf"
    by (simp_all add: not_found_def)
  have 3: "(\<lambda>url. garbled) MANIFEST_URL = Resolved ?gb" "ok ?gb \<and> body ?gb = Inl (ErrorObj ''SyntaxError'' ''Unexpected token'')"
    by (simp_all add: garbled_def)
  have a: "fetchContentManifest empty_storage 5 manifest_net 7
     = \<lparr>result = Inr duplicate_slug_manifest,
        store = empty_storage\<lparr>manifest_item := Some \<lparr>data = duplicate_slug_manifest, manifest_timestamp = 7\<rparr>\<rparr>,
        requests = [MANIFEST_URL]\<rparr>"
    using manifest_not_validated [where st = empty_storage and now = 5 and net = manifest_net and r = ?ok and payload = duplicate_slug_manifest and now' = 7] m 1
    by blast
  have b: "fetchContentManifest empty_storage 5 (\<lambda>url. not_found) 7
     = \<lparr>result = Inl (ErrorObj ''Error'' (''Failed to load content manifest: Failed to fetch manifest: '' @ show_nat (status ?nf) @ '' '' @ statusText ?nf)),
        store = empty_storage, requests = [MANIFEST_URL]\<rparr>"
    using manifest_not_validated [where st = empty_storage and now = 5 and net = "\<lambda>url. not_found" and r = ?nf and now' = 7] m 2
    by blast
  have c: "fetchContentManifest empty_storage 5 (\<lambda>url. garbled) 7
     = \<lparr>result = Inl (manifest_catch (ErrorObj ''SyntaxError'' ''Unexpected token'')), store = empty_storage, requests = [MANIFEST_URL]\<rparr>"
    using manifest_not_validated [where st = empty_storage and now = 5 and net = "\<lambda>url. garbled" and r = ?gb and e = "ErrorObj ''SyntaxError'' ''Unexpected token''" and now' = 7] m 3
    by blast
  have s: "show_nat 404 = ''404''" by code_simp
  show ?thesis
    unfolding a b c by (simp add: s manifest_catch_def is_AbortError_def error_message_def)
qed

subsection \<open>Aborted calls\<close>

text \<open>
  C2, as stated: a second \<open>fetchLesson(X)\<close> issued before the first has resolved aborts the
  first, so that one outcome resolves and the aborted call writes nothing; an aborted
  call surfaces no error to its caller. In the code the loader aborts nothing: two calls
  for lesson \<open>a\<close> that both start on an empty cache (at the times 5 and 6) each resolve
  and each write the cache (at the times 7 and 9). And a call whose signal does fire rejects, with the
  AbortError.
\<close>

theorem two_calls_both_resolve:
  "fetchLessonContent_start empty_storage 5 (example_lesson 1 ''a'') = Awaiting ''/content/lessons/a.md''
   \<and> fetchLessonContent_start empty_storage 6 (example_lesson 1 ''a'') = Awaiting ''/content/lessons/a.md''
   \<and> result (fetchLessonContent_finish empty_storage 7 (example_lesson 1 ''a'') (lesson_net ''/content/lessons/a.md''))
       = Inr \<lparr>markdown = ''## A'', headings = [TOCHeading ''a'' 2 ''A'' None]\<rparr>
   \<and> lesson_items (store (fetchLessonContent_finish empty_storage 7 (example_lesson 1 ''a'') (lesson_net ''/content/lessons/a.md'')))
        ''lesson-content-a''
       = Some \<lparr>content = ''## A'', timestamp = 7, entry_headings = [TOCHeading ''a'' 2 ''A'' None]\<rparr>
   \<and> result (fetchLessonContent_finish
               (store (fetchLessonContent_finish empty_storage 7 (example_lesson 1 ''a'') (lesson_net ''/content/lessons/a.md'')))
               9 (example_lesson 1 ''a'') (lesson_net ''/content/lessons/a.md''))
       = Inr \<lparr>markdown = ''## A'', headings = [TOCHeading ''a'' 2 ''A'' None]\<rparr>
   \<and> lesson_items (store (fetchLessonContent_finish
               (store (fetchLessonContent_finish empty_storage 7 (example_lesson 1 ''a'') (lesson_net ''/content/lessons/a.md'')))
               9 (example_lesson 1 ''a'') (lesson_net ''/content/lessons/a.md'')))
        ''lesson-content-a''
       = Some \<lparr>content = ''## A'', timestamp = 9, entry_headings = [TOCHeading ''a'' 2 ''A'' None]\<rparr>
   \<and> result (fetchLessonContent_finish empty_storage 7 (example_lesson 1 ''a'') (Rejected AbortError)) = Inl AbortError"
  by code_simp

text \<open>
  C2, amended: a call of the lesson content loader whose fetch, or whose reading of the
  body, rejects with an AbortError writes nothing to the cache and rejects with that
  AbortError itself; the caller, the effect of the \<open>Lesson\<close> route, catches it and sets no
  error. Aborting is left to the caller's AbortController: the loader does not abort an
  earlier call for the same slug, and two calls that start on a miss and whose signals
  do not fire both resolve and both write the cache, the later write last.
\<close>

theorem abort_rethrown_not_cached:
  "(is_AbortError e \<longrightarrow>
      fetchLessonContent_finish st now lesson (Rejected e) = \<lparr>result = Inl e, store = st\<rparr>
      \<and> (ok r \<and> body r = Inl e \<longrightarrow>
           fetchLessonContent_finish st now lesson (Resolved r) = \<lparr>result = Inl e, store = st\<rparr>)
      \<and> loadContent_end v (Inl e) = v\<lparr>contentLoading := False\<rparr>)
   \<and> (lesson_cache_miss st now lesson \<and> set_fault st = None \<longrightarrow>
      fetchLessonContent_start st now lesson = Awaiting (mdPath lesson)
      \<and> result (fetchLessonContent_finish st t1 lesson (ok_response md1))
          = Inr \<lparr>markdown = md1, headings = extractHeadings md1\<rparr>
      \<and> lesson_items (store (fetchLessonContent_finish st t1 lesson (ok_response md1))) (LESSON_CACHE_PREFIX @ slug lesson)
          = Some \<lparr>content = md1, timestamp = t1, entry_headings = extractHeadings md1\<rparr>
      \<and> result (fetchLessonContent_finish (store (fetchLessonContent_finish st t1 lesson (ok_response md1))) t2 lesson (ok_response md2))
          = Inr \<lparr>markdown = md2, headings = extractHeadings md2\<rparr>
      \<and> lesson_items (store (fetchLessonContent_finish (store (fetchLessonContent_finish st t1 lesson (ok_response md1))) t2 lesson (ok_response md2)))
           (LESSON_CACHE_PREFIX @ slug lesson)
          = Some \<lparr>content = md2, timestamp = t2, entry_headings = extractHeadings md2\<rparr>)"
proof (intro conjI impI)
  assume "is_AbortError e"
  then show "fetchLessonContent_finish st now lesson (Rejected e) = \<lparr>result = Inl e, store = st\<rparr>"
    by (simp add: fetchLessonContent_finish_def lesson_catch_abort)
next
  assume "is_AbortError e" "ok r \<and> body r = Inl e"
  then show "fetchLessonContent_finish st now lesson (Resolved r) = \<lparr>result = Inl e, store = st\<rparr>"
    by (simp add: fetchLessonContent_finish_def lesson_catch_abort)
next
  assume "is_AbortError e"
  then show "loadContent_end v (Inl e) = v\<lparr>contentLoading := False\<rparr>"
    by (rule loadContent_end_abort)
next
  assume a: "lesson_cache_miss st now lesson \<and> set_fault st = None"
  then show "fetchLessonContent_start st now lesson = Awaiting (mdPath lesson)"
    by (simp add: fetchLessonContent_start_miss)
  let ?st1 = "store (fetchLessonContent_finish st t1 lesson (ok_response md1))"
  have f1: "fetchLessonContent_finish st t1 lesson (ok_response md1)
     = \<lparr>result = Inr \<lparr>markdown = md1, headings = extractHeadings md1\<rparr>,
        store = st\<lparr>lesson_items := (lesson_items st)(LESSON_CACHE_PREFIX @ slug lesson \<mapsto>
                  \<lparr>content = md1, timestamp = t1, entry_headings = extractHeadings md1\<rparr>)\<rparr>\<rparr>"
    using a by (simp add: fetchLessonContent_finish_stored)
  then have w: "set_fault ?st1 = None" using a by simp
  have f2: "fetchLessonContent_finish ?st1 t2 lesson (ok_response md2)
     = \<lparr>result = Inr \<lparr>markdown = md2, headings = extractHeadings md2\<rparr>,
        store = ?st1\<lparr>lesson_items := (lesson_items ?st1)(LESSON_CACHE_PREFIX @ slug lesson \<mapsto>
                  \<lparr>content = md2, timestamp = t2, entry_headings = extractHeadings md2\<rparr>)\<rparr>\<rparr>"
    by (rule fetchLessonContent_finish_stored [OF w])
  show "result (fetchLessonContent_finish st t1 lesson (ok_response md1))
          = Inr \<lparr>markdown = md1, headings = extractHeadings md1\<rparr>"
    by (simp add: f1)
  show "lesson_items ?st1 (LESSON_CACHE_PREFIX @ slug lesson)
          = Some \<lparr>content = md1, timestamp = t1, entry_headings = extractHeadings md1\<rparr>"
    by (simp add: f1)
  show "result (fetchLessonContent_finish ?st1 t2 lesson (ok_response md2))
          = Inr \<lparr>markdown = md2, headings = extractHeadings md2\<rparr>"
    by (simp add: f2)
  show "lesson_items (store (fetchLessonContent_finish ?st1 t2 lesson (ok_response md2))) (LESSON_CACHE_PREFIX @ slug lesson)
          = Some \<lparr>content = md2, timestamp = t2, entry_headings = extractHeadings md2\<rparr>"
    by (simp add: f2)
qed

theorem abort_rethrown_not_cached_witness:
  "fetchLessonContent_finish cached_storage 7 (example_lesson 1 ''a'') (Rejected AbortError)
     = \<lparr>result = Inl AbortError, store = cached_storage\<rparr>
   \<and> fetchLessonContent_finish cached_storage 7 (example_lesson 1 ''a'') aborted_body
     = \<lparr>result = Inl AbortError, store = cached_storage\<rparr>
   \<and> loadContent_end idle_view (Inl AbortError) = \<lparr>lessonContent = None, contentLoading = False, contentError = None\<rparr>
   \<and> result (fetchLessonContent_finish empty_storage 7 (example_lesson 1 ''a'') (ok_response ''## A''))
       = Inr \<lparr>markdown = ''## A'', headings = extractHeadings ''## A''\<rparr>
   \<and> result (fetchLessonContent_finish
               (store (fetchLessonContent_finish empty_storage 7 (example_lesson 1 ''a'') (ok_response ''## A'')))
               9 (example_lesson 1 ''a'') (ok_response ''## B''))
       = Inr \<lparr>markdown = ''## B'', headings = extractHeadings ''## B''\<rparr>"
proof -
  let ?l = "example_lesson 1 ''a''"
  let ?r = "\<lparr>ok = True, status = 200, statusText = ''OK'', body = Inl AbortError :: thrown + string\<rparr>"
  have 1: "is_AbortError AbortError" by (simp add: is_AbortError_def AbortError_def)
  have 2: "ok ?r \<and> body ?r = Inl AbortError" by simp
  have 3: "lesson_cache_miss empty_storage 5 ?l \<and> set_fault empty_storage = None"
    by (simp add: lesson_cache_miss_def empty_storage_def)
  note T = abort_rethrown_not_cached [where e = AbortError and st = cached_storage and now = 7 and lesson = ?l and r = ?r and v = idle_view]
  have a: "fetchLessonContent_finish cached_storage 7 ?l (Rejected AbortError) = \<lparr>result = Inl AbortError, store = cached_storage\<rparr>"
    using T 1 by blast
  have b: "fetchLessonContent_finish cached_storage 7 ?l (Resolved ?r) = \<lparr>result = Inl AbortError, store = cached_storage\<rparr>"
    using T 1 2 by blast
  have c: "loadContent_end idle_view (Inl AbortError) = idle_view\<lparr>contentLoading := False\<rparr>"
    using T 1 by blast
  note U = abort_rethrown_not_cached [where st = empty_storage and now = 5 and lesson = ?l and ?t1.0 = 7 and ?t2.0 = 9 and ?md1.0 = "''## A''" and ?md2.0 = "''## B''"]
  have d: "result (fetchLessonContent_finish empty_storage 7 ?l (ok_response ''## A''))
       = Inr \<lparr>markdown = ''## A'', headings = extractHeadings ''## A''\<rparr>"
    using U 3 by blast
  have e: "result (fetchLessonContent_finish (store (fetchLessonContent_finish empty_storage 7 ?l (ok_response ''## A''))) 9 ?l (ok_response ''## B''))
       = Inr \<lparr>markdown = ''## B'', headings = extractHeadings ''## B''\<rparr>"
    using U 3 by blast
  show ?thesis
    using a b c d e by (simp add: aborted_body_def idle_view_def)
qed

section \<open>Properties of the heading tree\<close>

lemma pop_loop_dropWhile:
  "pop_loop hs a (rev stk) = rev (dropWhile (\<lambda>p. depth_at hs a \<le> depth_at hs p) stk)"
proof (induction stk)
  case Nil
  then show ?case by (simp add: pop_loop.simps)
next
  case (Cons p stk)
  show ?case
  proof (cases "depth_at hs a \<le> depth_at hs p")
    case True
    then have "pop_loop hs a (rev (p # stk)) = pop_loop hs a (rev stk)"
      by (subst pop_loop.simps) simp
    with True Cons show ?thesis by simp
  next
    case False
    then have "pop_loop hs a (rev (p # stk)) = rev (p # stk)"
      by (subst pop_loop.simps) simp
    with False show ?thesis by simp
  qed
qed

lemma spec_visit_root:
  "dropWhile (\<lambda>p. depth_at hs a \<le> depth_at hs p) (stack st) = [] \<Longrightarrow>
   spec_visit hs a st = st\<lparr>root := root st @ [a], stack := [a]\<rparr>"
  by (simp add: spec_visit_def del: dropWhile_eq_Nil_conv)

lemma spec_visit_child:
  "dropWhile (\<lambda>p. depth_at hs a \<le> depth_at hs p) (stack st) = p # below \<Longrightarrow>
   spec_visit hs a st
     = st\<lparr>children_of := (children_of st)(p \<mapsto> (case children_of st p of None \<Rightarrow> [] | Some cs \<Rightarrow> cs) @ [a]),
          stack := a # p # below\<rparr>"
  by (simp add: spec_visit_def)

lemma visit_spec_visit: "visit hs (flip_stack st) a = flip_stack (spec_visit hs a st)"
proof (cases "dropWhile (\<lambda>p. depth_at hs a \<le> depth_at hs p) (stack st)")
  case Nil
  then have "pop_loop hs a (rev (stack st)) = []" by (simp add: pop_loop_dropWhile del: dropWhile_eq_Nil_conv)
  then show ?thesis
    by (simp add: visit_def flip_stack_def spec_visit_root [OF Nil])
next
  case (Cons p below)
  then have "pop_loop hs a (rev (stack st)) = rev below @ [p]" by (simp add: pop_loop_dropWhile)
  then show ?thesis
    by (simp add: visit_def flip_stack_def spec_visit_child [OF Cons] Let_def)
qed

lemma visit_all_fold: "visit_all hs (flip_stack st) as = flip_stack (fold (spec_visit hs) as st)"
  by (induction as arbitrary: st) (simp_all add: visit_spec_visit)

lemma build_spec_buildTree: "build hs = flip_stack (spec_buildTree hs)"
proof -
  have "\<lparr>children_of = Map.empty, root = [], stack = []\<rparr> = flip_stack \<lparr>children_of = Map.empty, root = [], stack = []\<rparr>"
    by (simp add: flip_stack_def)
  then show ?thesis
    unfolding build_def spec_buildTree_def by (metis visit_all_fold)
qed

lemma nearest_Some:
  "nearest P n = Some p \<longleftrightarrow> p < n \<and> P p \<and> (\<forall>k. p < k \<and> k < n \<longrightarrow> \<not> P k)"
proof (induction n)
  case 0
  then show ?case by simp
next
  case (Suc n)
  show ?case
  proof (cases "P n")
    case True
    then show ?thesis
      by (auto simp: less_Suc_eq) 
  next
    case False
    with Suc show ?thesis
      by (auto simp: less_Suc_eq)
  qed
qed

lemma nearest_None: "nearest P n = None \<longleftrightarrow> (\<forall>k < n. \<not> P k)"
  by (induction n) (auto simp: less_Suc_eq)

lemma chain_dropWhile:
  assumes "j < a" and "\<forall>k. j < k \<and> k < a \<longrightarrow> depth_at hs a \<le> depth_at hs k"
  shows "dropWhile (\<lambda>p. depth_at hs a \<le> depth_at hs p) (chain hs j)
           = (case parent_of hs a of None \<Rightarrow> [] | Some p \<Rightarrow> chain hs p)"
  using assms
proof (induction j rule: less_induct)
  case (less j)
  let ?d = "depth_at hs"
  show ?case
  proof (cases "?d a \<le> ?d j")
    case False
    then have "parent_of hs a = Some j"
      unfolding parent_of_def nearest_Some using less.prems by (auto simp: not_le)
    moreover have "chain hs j = j # (case parent_of hs j of None \<Rightarrow> [] | Some p \<Rightarrow> chain hs p)"
      by (rule chain.simps)
    then have "dropWhile (\<lambda>p. ?d a \<le> ?d p) (chain hs j) = chain hs j"
      using False by (metis dropWhile.simps(2))
    ultimately show ?thesis by simp
  next
    case True
    then have d: "dropWhile (\<lambda>p. ?d a \<le> ?d p) (chain hs j)
          = dropWhile (\<lambda>p. ?d a \<le> ?d p) (case parent_of hs j of None \<Rightarrow> [] | Some p \<Rightarrow> chain hs p)"
      by (subst chain.simps) simp
    show ?thesis
    proof (cases "parent_of hs j")
      case None
      then have "\<forall>k < j. ?d j \<le> ?d k" by (auto simp: parent_of_def nearest_None not_less)
      with True less.prems have "\<forall>k < a. ?d a \<le> ?d k"
        by (metis le_trans linorder_neqE_nat)
      then have "parent_of hs a = None" by (auto simp: parent_of_def nearest_None not_less)
      with d None show ?thesis by simp
    next
      case (Some p)
      then have p: "p < j" "\<forall>k. p < k \<and> k < j \<longrightarrow> ?d j \<le> ?d k"
        by (auto simp: parent_of_def nearest_Some not_less)
      have "\<forall>k. p < k \<and> k < a \<longrightarrow> ?d a \<le> ?d k"
      proof (intro allI impI)
        fix k assume k: "p < k \<and> k < a"
        consider "k < j" | "k = j" | "j < k" by (meson linorder_neqE_nat)
        then show "?d a \<le> ?d k"
        proof cases
          case 1
          with p k True show ?thesis by (meson le_trans)
        next
          case 2
          with True show ?thesis by simp
        next
          case 3
          with less.prems k show ?thesis by simp
        qed
      qed
      with less.IH [of p] p less.prems d Some show ?thesis by simp
    qed
  qed
qed

lemma open_chain_dropWhile:
  "dropWhile (\<lambda>p. depth_at hs a \<le> depth_at hs p) (open_chain hs a)
     = (case parent_of hs a of None \<Rightarrow> [] | Some p \<Rightarrow> chain hs p)"
proof (cases a)
  case 0
  then show ?thesis by (simp add: open_chain_def parent_of_def)
next
  case (Suc j)
  have "dropWhile (\<lambda>p. depth_at hs a \<le> depth_at hs p) (chain hs j)
           = (case parent_of hs a of None \<Rightarrow> [] | Some p \<Rightarrow> chain hs p)"
    by (rule chain_dropWhile) (use Suc in auto)
  with Suc show ?thesis by (simp add: open_chain_def)
qed

lemma children_upto_Suc_other:
  "parent_of hs n \<noteq> Some p \<Longrightarrow> children_upto hs (Suc n) p = children_upto hs n p"
  by (simp add: children_upto_def)

lemma children_upto_Suc_parent:
  "parent_of hs n = Some p \<Longrightarrow>
   children_upto hs (Suc n) p = Some ((case children_upto hs n p of None \<Rightarrow> [] | Some cs \<Rightarrow> cs) @ [n])"
  by (simp add: children_upto_def Let_def)

lemma spec_visit_inv:
  assumes "outline_inv hs n st"
  shows "outline_inv hs (Suc n) (spec_visit hs n st)"
proof (cases "parent_of hs n")
  case None
  from assms have s: "stack st = open_chain hs n" by (simp add: outline_inv_def)
  have d: "dropWhile (\<lambda>p. depth_at hs n \<le> depth_at hs p) (stack st) = []"
    unfolding s open_chain_dropWhile using None by simp
  have c: "chain hs n = [n]" using None by (subst chain.simps) simp
  have k: "children_upto hs (Suc n) = children_upto hs n"
    using None by (intro ext) (simp add: children_upto_Suc_other)
  show ?thesis
    unfolding spec_visit_root [OF d] outline_inv_def
    using assms None by (simp add: outline_inv_def k open_chain_def c)
next
  case (Some p)
  from assms have s: "stack st = open_chain hs n" by (simp add: outline_inv_def)
  have cp: "chain hs p = p # (case parent_of hs p of None \<Rightarrow> [] | Some q \<Rightarrow> chain hs q)"
    by (rule chain.simps)
  have d: "dropWhile (\<lambda>p. depth_at hs n \<le> depth_at hs p) (stack st)
            = p # (case parent_of hs p of None \<Rightarrow> [] | Some q \<Rightarrow> chain hs q)"
    unfolding s open_chain_dropWhile using Some cp by simp
  have c: "chain hs n = n # chain hs p" using Some by (subst chain.simps) simp
  have k: "(children_upto hs n)(p \<mapsto> (case children_upto hs n p of None \<Rightarrow> [] | Some cs \<Rightarrow> cs) @ [n])
            = children_upto hs (Suc n)"
  proof (intro ext)
    fix q show "((children_upto hs n)(p \<mapsto> (case children_upto hs n p of None \<Rightarrow> [] | Some cs \<Rightarrow> cs) @ [n])) q
            = children_upto hs (Suc n) q"
      using Some by (cases "q = p") (simp_all add: children_upto_Suc_other children_upto_Suc_parent)
  qed
  have ch: "children_of st = children_upto hs n" and r: "root st = filter (\<lambda>a. parent_of hs a = None) [0 ..< n]"
    using assms by (simp_all add: outline_inv_def)
  show ?thesis
    unfolding spec_visit_child [OF d] outline_inv_def
    using Some by (simp add: ch r k open_chain_def c cp [symmetric])
qed

lemma fold_spec_visit_inv:
  "outline_inv hs 0 st \<Longrightarrow> outline_inv hs n (fold (spec_visit hs) [0 ..< n] st)"
  by (induction n) (simp_all add: spec_visit_inv)

lemma spec_buildTree_inv: "outline_inv hs (length hs) (spec_buildTree hs)"
  unfolding spec_buildTree_def
  by (rule fold_spec_visit_inv) (auto simp: outline_inv_def open_chain_def children_upto_def)

lemma build_children_later:
  assumes "children_of (build hs) a = Some cs" and "c \<in> set cs"
  shows "a < c \<and> c < length hs"
proof -
  have "children_of (build hs) = children_upto hs (length hs)"
    using spec_buildTree_inv [of hs] by (simp add: build_spec_buildTree flip_stack_def outline_inv_def)
  with assms have "c \<in> set (filter (\<lambda>x. parent_of hs x = Some a) [0 ..< length hs])"
    by (auto simp: children_upto_def Let_def split: if_splits)
  then show ?thesis by (auto simp: parent_of_def dest: nearest_less)
qed

text \<open>
  C9: for every flat heading sequence \<open>buildHeadingTree\<close> follows the stack algorithm of
  the specification: the state it returns from is the state that algorithm ends in (the
  stack written top first there). Its effect is that the roots are the headings that no
  less deep heading precedes, and the children of a heading are the headings for which
  it is the last less deep heading before them, both in document order; the value
  returned is that forest. For the depths
  \<open>[2,3,3,2,4]\<close> and texts \<open>[A,B,C,D,E]\<close> the result is
  \<open>[{A, children: [B, C]}, {D, children: [E]}]\<close>.
\<close>

theorem buildHeadingTree_stack_algorithm:
  "build hs = (spec_buildTree hs)\<lparr>stack := rev (stack (spec_buildTree hs))\<rparr>
   \<and> root (build hs) = filter (\<lambda>a. parent_of hs a = None) [0 ..< length hs]
   \<and> children_of (build hs) p = children_upto hs (length hs) p
   \<and> buildHeadingTree hs
       = map (snapshot hs (children_upto hs (length hs))) (filter (\<lambda>a. parent_of hs a = None) [0 ..< length hs])
   \<and> buildHeadingTree example_headings
       = [TOCHeading ''a'' 2 ''A'' (Some [TOCHeading ''b'' 3 ''B'' None, TOCHeading ''c'' 3 ''C'' None]),
          TOCHeading ''d'' 2 ''D'' (Some [TOCHeading ''e'' 4 ''E'' None])]"
proof (intro conjI)
  show "build hs = (spec_buildTree hs)\<lparr>stack := rev (stack (spec_buildTree hs))\<rparr>"
    using build_spec_buildTree [of hs] by (simp add: flip_stack_def)
  show "root (build hs) = filter (\<lambda>a. parent_of hs a = None) [0 ..< length hs]"
    using spec_buildTree_inv [of hs] by (simp add: build_spec_buildTree flip_stack_def outline_inv_def)
  have ch: "children_of (build hs) = children_upto hs (length hs)"
    using spec_buildTree_inv [of hs] by (simp add: build_spec_buildTree flip_stack_def outline_inv_def)
  have rt: "root (build hs) = filter (\<lambda>a. parent_of hs a = None) [0 ..< length hs]"
    using spec_buildTree_inv [of hs] by (simp add: build_spec_buildTree flip_stack_def outline_inv_def)
  show "children_of (build hs) p = children_upto hs (length hs) p"
    by (simp add: ch)
  show "buildHeadingTree hs
       = map (snapshot hs (children_upto hs (length hs))) (filter (\<lambda>a. parent_of hs a = None) [0 ..< length hs])"
    by (simp add: buildHeadingTree_def Let_def ch rt)
  show "buildHeadingTree example_headings
       = [TOCHeading ''a'' 2 ''A'' (Some [TOCHeading ''b'' 3 ''B'' None, TOCHeading ''c'' 3 ''C'' None]),
          TOCHeading ''d'' 2 ''D'' (Some [TOCHeading ''e'' 4 ''E'' None])]"
    by code_simp
qed

text \<open>
  So the reading of the result through the store leaves no child out, and a heading is
  less deep than each of its children.
\<close>

lemma build_children_deeper:
  assumes "children_of (build hs) a = Some cs" and "c \<in> set cs"
  shows "depth_at hs a < depth_at hs c"
proof -
  have "children_of (build hs) = children_upto hs (length hs)"
    using spec_buildTree_inv [of hs] by (simp add: build_spec_buildTree flip_stack_def outline_inv_def)
  with assms have "parent_of hs c = Some a"
    by (auto simp: children_upto_def Let_def split: if_splits)
  then show ?thesis by (simp add: parent_of_def nearest_Some)
qed

lemma snapshot_reads_all:
  "children_of (build hs) a = Some cs \<Longrightarrow> filter (\<lambda>c. a < c \<and> c < length hs) cs = cs"
  by (auto simp: filter_id_conv dest: build_children_later)

section \<open>Headings in fenced code, and the identifiers of the renderer\<close>

text \<open>
  C3: \<open>extractHeadings\<close> is to leave out heading markers inside fenced code blocks. The
  code keeps no fence state: on a source that consists of a fenced block with the line
  \<open>## not a heading\<close> in it, it returns that line as a heading of depth 2.
\<close>

theorem extractHeadings_fenced:
  "extractHeadings fenced_source = [TOCHeading ''not-a-heading'' 2 ''not a heading'' None]"
  by code_simp

text \<open>
  C5: the extractor and \<open>rehype-slug\<close> are to give a heading the same identifier. What
  the extractor gives: \<open>backup-recovery-strategies\<close> for the heading
  \<open>Backup & Recovery Strategies\<close> of lesson 10, where \<open>rehype-slug\<close> turns each of the
  two spaces around the removed ampersand into a hyphen; and the same identifier
  \<open>next-steps\<close> for both of two headings \<open>Next Steps\<close>, where \<open>rehype-slug\<close> numbers the
  second.
\<close>

theorem generateHeadingId_on_lesson_headings:
  "generateHeadingId ''Backup & Recovery Strategies'' = ''backup-recovery-strategies''
   \<and> extractHeadings repeated_source
       = [TOCHeading ''next-steps'' 2 ''Next Steps'' None, TOCHeading ''next-steps'' 2 ''Next Steps'' None]"
  by code_simp

section \<open>Raw markup in the renderer\<close>

text \<open>
  C1: raw markup in the source is to reach the output escaped, never as markup. The
  pipeline is run with \<open>allowDangerousHtml: true\<close> in both places where the libraries
  ask for it, which makes \<open>remark-rehype\<close> keep an HTML block of the source as a raw node
  and \<open>rehype-stringify\<close> write that node out as it is. The code of the renderer itself,
  which comes behind, does not escape either: it leaves a serialized
  \<open><script>alert(1)</script>\<close> as it finds it, and changes nothing at all where no \<open>pre\<close>
  element starts.
\<close>

theorem add_copy_buttons_keeps_script:
  "add_copy_buttons SCRIPT_ELEMENT = SCRIPT_ELEMENT
   \<and> add_copy_buttons ''<img src=x onerror=alert(1)>'' = ''<img src=x onerror=alert(1)>''"
  by code_simp


end
